theory Spec2Isabelle
  imports Complex_Main
begin

text \<open>
  The interval planning and session timing of the workout companion: the timeline computed
  from a plan, the session driver with its timeouts, the playback observer, the song
  completion counter and the scheduling of the token refresh. Each function of the source
  is a function of the same name here. The state of a hook, its references and the timers
  of the browser it acts on form one record that a function takes and returns; the value
  of \<open>Date.now()\<close> and the outcome of a request are arguments. A state update is applied
  when it is made, and a callback reads the state it runs in.
\<close>

section \<open>Interval plan model (hooks/useIntervalPlan.ts)\<close>

text \<open>
  JavaScript numbers that hold counts of minutes, seconds and milliseconds are modelled as
  \<open>int\<close>: every such value of the program is an integer well inside the range in which
  a double is exact. \<open>Math.floor (a / b)\<close> on integers with \<open>b \<noteq> 0\<close> is the
  floor division \<open>a div b\<close> of \<open>int\<close>.
\<close>

record IntervalPlan =
  totalMinutes :: int
  includeThirtySeconds :: bool
  sliceLengthSeconds :: int

record TimelineSlice =
  index :: int
  durationMs :: int
  startMs :: int
  endMs :: int
  isRemainder :: bool
  skipAfter :: bool

record IntervalStats =
  totalDurationMs :: int
  baseSliceDurationMs :: int
  fullSlices :: int
  remainderMs :: int
  timeline :: "TimelineSlice list"
  skipCount :: int

definition SLICE_OPTIONS_SECONDS :: "int list" where
  "SLICE_OPTIONS_SECONDS = [30, 60, 90, 120, 150, 180, 210]"

definition DEFAULT_PLAN :: IntervalPlan where
  "DEFAULT_PLAN = \<lparr>totalMinutes = 10, includeThirtySeconds = False, sliceLengthSeconds = 120\<rparr>"

definition totalMs :: "IntervalPlan \<Rightarrow> int" where
  "totalMs plan = (totalMinutes plan * 60 + (if includeThirtySeconds plan then 30 else 0)) * 1000"

text \<open>
  The \<open>for\<close> loop of \<open>computeTimeline\<close>: \<open>idx\<close> is the loop counter, \<open>currentStart\<close>
  the running offset and \<open>acc\<close> the array that \<open>push\<close> extends.
\<close>

function timeline_loop ::
  "int \<Rightarrow> int \<Rightarrow> int \<Rightarrow> int \<Rightarrow> int \<Rightarrow> TimelineSlice list \<Rightarrow> TimelineSlice list" where
  "timeline_loop slicesToCreate remMs sliceMs idx currentStart acc =
     (if idx < slicesToCreate then
        (let isLast = (idx = slicesToCreate - 1);
             isRem = (isLast \<and> remMs > 0);
             dur = (if isRem then remMs else sliceMs);
             startv = currentStart;
             endv = startv + dur
         in timeline_loop slicesToCreate remMs sliceMs (idx + 1) endv
              (acc @ [\<lparr>index = idx, durationMs = dur, startMs = startv, endMs = endv,
                        isRemainder = isRem, skipAfter = (\<not> isLast)\<rparr>]))
      else acc)"
  by pat_completeness auto
termination
  by (relation "measure (\<lambda>(n, r, s, i, c, a). nat (n - i))") auto

declare timeline_loop.simps [simp del]

text \<open>
  \<open>computeTimeline\<close>. With a positive total and \<open>sliceMs = 0\<close> the division gives
  \<open>Infinity\<close>, \<open>slicesToCreate\<close> is \<open>Infinity\<close> and the loop never ends: the model
  returns \<open>None\<close> there.
\<close>

definition computeTimeline :: "IntervalPlan \<Rightarrow> IntervalStats option" where
  "computeTimeline plan =
     (let totalDuration = totalMs plan;
          sliceMs = sliceLengthSeconds plan * 1000
      in if totalDuration \<le> 0 then
           Some \<lparr>totalDurationMs = 0, baseSliceDurationMs = sliceMs, fullSlices = 0,
                 remainderMs = 0, timeline = [], skipCount = 0\<rparr>
         else if sliceMs = 0 then None
         else
           (let full = totalDuration div sliceMs;
                remMs = totalDuration - full * sliceMs;
                slicesToCreate = full + (if remMs > 0 \<or> full = 0 then 1 else 0);
                tl = timeline_loop slicesToCreate remMs sliceMs 0 0 []
            in Some \<lparr>totalDurationMs = totalDuration, baseSliceDurationMs = sliceMs,
                     fullSlices = full, remainderMs = remMs, timeline = tl,
                     skipCount = max 0 (int (length tl) - 1)\<rparr>))"


text \<open>
  The slice that the loop pushes at position \<open>i\<close> of a timeline of \<open>n\<close> slices, in closed
  form; used to state what the loop computes.
\<close>

definition mk_slice :: "int \<Rightarrow> int \<Rightarrow> int \<Rightarrow> int \<Rightarrow> TimelineSlice" where
  "mk_slice n r s i =
     \<lparr>index = i,
      durationMs = (if i = n - 1 \<and> r > 0 then r else s),
      startMs = i * s,
      endMs = i * s + (if i = n - 1 \<and> r > 0 then r else s),
      isRemainder = (i = n - 1 \<and> r > 0),
      skipAfter = (i \<noteq> n - 1)\<rparr>"

subsection \<open>Sanitization of the slice length\<close>

text \<open>
  The argument of \<open>sanitizeSliceSeconds\<close> is any JavaScript number: a finite one (a double,
  idealised as a real) or one of the three non-finite values. \<open>Math.round\<close> rounds to the
  nearest integer, a tie towards \<open>+\<infinity>\<close>.
\<close>

datatype jsnumber = Num real | NaN | PosInfinity | NegInfinity

definition math_round :: "real \<Rightarrow> int" where
  "math_round x = \<lfloor>x + 1 / 2\<rfloor>"

definition sanitizeSliceSeconds :: "jsnumber \<Rightarrow> int" where
  "sanitizeSliceSeconds v =
     (case v of
        Num x \<Rightarrow>
          (let normalized = max 30 (min 210 (math_round (x / 30) * 30))
           in if normalized \<in> set SLICE_OPTIONS_SECONDS then normalized
              else sliceLengthSeconds DEFAULT_PLAN)
      | _ \<Rightarrow> sliceLengthSeconds DEFAULT_PLAN)"

subsection \<open>The operations on the plan\<close>

definition clampMinutes :: "jsnumber \<Rightarrow> int" where
  "clampMinutes v = (case v of Num x \<Rightarrow> max 0 \<lfloor>x\<rfloor> | _ \<Rightarrow> 0)"

definition incrementMinutes :: "IntervalPlan \<Rightarrow> IntervalPlan" where
  "incrementMinutes prev =
     prev\<lparr>totalMinutes := clampMinutes (Num (of_int (totalMinutes prev + 1)))\<rparr>"

definition decrementMinutes :: "IntervalPlan \<Rightarrow> IntervalPlan" where
  "decrementMinutes prev =
     prev\<lparr>totalMinutes := clampMinutes (Num (of_int (max 0 (totalMinutes prev - 1))))\<rparr>"

definition setIncludeThirtySeconds :: "bool \<Rightarrow> IntervalPlan \<Rightarrow> IntervalPlan" where
  "setIncludeThirtySeconds v prev = prev\<lparr>includeThirtySeconds := v\<rparr>"

definition selectSliceLength :: "jsnumber \<Rightarrow> IntervalPlan \<Rightarrow> IntervalPlan" where
  "selectSliceLength seconds prev = prev\<lparr>sliceLengthSeconds := sanitizeSliceSeconds seconds\<rparr>"

definition resetPlan :: "IntervalPlan \<Rightarrow> IntervalPlan" where
  "resetPlan prev = DEFAULT_PLAN"

text \<open>
  The invariant of the plan: a whole number of minutes that is not negative, and a slice
  length out of the enumerated options.
\<close>

definition validPlan :: "IntervalPlan \<Rightarrow> bool" where
  "validPlan plan =
     (0 \<le> totalMinutes plan \<and> sliceLengthSeconds plan \<in> set SLICE_OPTIONS_SECONDS)"

section \<open>Credentials (context/AuthContext.tsx)\<close>

record AuthTokens =
  accessToken :: string
  refreshToken :: "string option"
  expiresAt :: int
  scope :: string
  tokenType :: string

text \<open>\<open>tokens?.accessToken\<close> as a condition: the tokens are present and the string is not empty.\<close>

definition hasAccessToken :: "AuthTokens option \<Rightarrow> bool" where
  "hasAccessToken tokens = (case tokens of None \<Rightarrow> False | Some t \<Rightarrow> accessToken t \<noteq> [])"

definition REFRESH_BUFFER_MS :: int where
  "REFRESH_BUFFER_MS = 60000"

definition MIN_REFRESH_DELAY_MS :: int where
  "MIN_REFRESH_DELAY_MS = 5000"

text \<open>
  The provider's refresh timer. \<open>pendingRefreshes\<close> is the browser's table of timeouts that
  were set and are neither fired nor cleared (identifier and delay); \<open>nextRefreshId\<close> is the
  identifier that the next \<open>setTimeout\<close> returns.
\<close>

record RefreshScheduler =
  refreshTimeoutRef :: "nat option"
  pendingRefreshes :: "(nat \<times> int) list"
  nextRefreshId :: nat

text \<open>
  The block that clears the pending refresh timeout, at the head of \<open>scheduleRefresh\<close>.
  A reference holding \<open>0\<close> is falsy and left alone.
\<close>

definition clearRefreshTimeout :: "RefreshScheduler \<Rightarrow> RefreshScheduler" where
  "clearRefreshTimeout sch =
     (case refreshTimeoutRef sch of
        None \<Rightarrow> sch
      | Some i \<Rightarrow>
          if i = 0 then sch
          else sch\<lparr>pendingRefreshes := filter (\<lambda>p. fst p \<noteq> i) (pendingRefreshes sch),
                   refreshTimeoutRef := None\<rparr>)"

text \<open>
  \<open>scheduleRefresh current\<close> at time \<open>now\<close>. The result holds the new timer state and
  whether \<open>runRefresh\<close> was called at once. \<open>hasWindow\<close> is \<open>typeof window !== 'undefined'\<close>.
  An empty refresh token is falsy.
\<close>

definition scheduleRefresh ::
  "bool \<Rightarrow> AuthTokens \<Rightarrow> int \<Rightarrow> RefreshScheduler \<Rightarrow> RefreshScheduler \<times> bool" where
  "scheduleRefresh hasWindow current now sch =
     (if \<not> hasWindow then (sch, False)
      else
        (let sch1 = clearRefreshTimeout sch
         in if refreshToken current = None \<or> refreshToken current = Some [] then (sch1, False)
            else
              (let msUntilExpiry = expiresAt current - now
               in if msUntilExpiry \<le> REFRESH_BUFFER_MS then (sch1, True)
                  else
                    (let delay = max (msUntilExpiry - REFRESH_BUFFER_MS) MIN_REFRESH_DELAY_MS
                     in (sch1\<lparr>pendingRefreshes := pendingRefreshes sch1 @ [(nextRefreshId sch1, delay)],
                               refreshTimeoutRef := Some (nextRefreshId sch1),
                               nextRefreshId := nextRefreshId sch1 + 1\<rparr>, False)))))"

section \<open>Interval session driver (hooks/useIntervalSession.ts)\<close>

datatype SessionStatus = Idle | Running | Completed

record SessionState =
  status :: SessionStatus
  startedAt :: "int option"
  currentSliceIndex :: int

text \<open>
  A timeout set by \<open>startSession\<close>: the identifier that \<open>setTimeout\<close> returned, the delay,
  and what the callback's closure holds (\<open>index\<close>, \<open>slice.skipAfter\<close> and
  \<open>stats.timeline.length\<close> of the timeline the session was started with).
\<close>

record SliceTimer =
  timerId :: nat
  delayMs :: int
  sliceIndex :: int
  timerSkipAfter :: bool
  timelineLength :: int

text \<open>
  The hook's state and references together with the part of the browser they act on:
  \<open>pendingTimeouts\<close> are the timeouts that were set and are neither fired nor cleared,
  \<open>activeIntervals\<close> the running intervals, \<open>nextTimerId\<close> the identifier that the next
  \<open>setTimeout\<close> or \<open>setInterval\<close> returns. \<open>effectDeps\<close> is what React remembers of the
  effect that stops the session: the values of \<open>stats.timeline.length\<close> and
  \<open>stats.totalDurationMs\<close> at its last run (\<open>None\<close> before the first render).
\<close>

record SessionDriver =
  sessionState :: SessionState
  nowState :: int
  timersRef :: "nat list"
  tickRef :: "nat option"
  pendingTimeouts :: "SliceTimer list"
  activeIntervals :: "nat list"
  nextTimerId :: nat
  effectDeps :: "(int \<times> int) option"

definition idleState :: SessionState where
  "idleState = \<lparr>status = Idle, startedAt = None, currentSliceIndex = 0\<rparr>"

definition initialDriver :: "int \<Rightarrow> SessionDriver" where
  "initialDriver now =
     \<lparr>sessionState = idleState, nowState = now, timersRef = [], tickRef = None,
      pendingTimeouts = [], activeIntervals = [], nextTimerId = 1, effectDeps = None\<rparr>"

definition clearTimers :: "SessionDriver \<Rightarrow> SessionDriver" where
  "clearTimers d =
     d\<lparr>pendingTimeouts := filter (\<lambda>t. timerId t \<notin> set (timersRef d)) (pendingTimeouts d),
       timersRef := []\<rparr>"

definition clearTicker :: "SessionDriver \<Rightarrow> SessionDriver" where
  "clearTicker d =
     (case tickRef d of
        None \<Rightarrow> d
      | Some i \<Rightarrow> d\<lparr>activeIntervals := removeAll i (activeIntervals d), tickRef := None\<rparr>)"

definition stopSession :: "SessionDriver \<Rightarrow> SessionDriver" where
  "stopSession d = (clearTicker (clearTimers d))\<lparr>sessionState := idleState\<rparr>"

text \<open>The \<open>forEach\<close> of \<open>startSession\<close>: one \<open>setTimeout\<close> per slice, its identifier pushed.\<close>

fun schedule_slices :: "int \<Rightarrow> int \<Rightarrow> TimelineSlice list \<Rightarrow> SessionDriver \<Rightarrow> SessionDriver" where
  "schedule_slices len idx [] d = d"
| "schedule_slices len idx (slice # rest) d =
     schedule_slices len (idx + 1) rest
       (d\<lparr>pendingTimeouts := pendingTimeouts d @
              [\<lparr>timerId = nextTimerId d, delayMs = endMs slice, sliceIndex = idx,
                timerSkipAfter = skipAfter slice, timelineLength = len\<rparr>],
          timersRef := timersRef d @ [nextTimerId d],
          nextTimerId := nextTimerId d + 1\<rparr>)"

definition startSession ::
  "AuthTokens option \<Rightarrow> IntervalStats \<Rightarrow> int \<Rightarrow> SessionDriver \<Rightarrow> SessionDriver" where
  "startSession tokens stats startTime d =
     (if \<not> hasAccessToken tokens \<or> length (timeline stats) = 0 then d
      else
        (let d1 = clearTicker (clearTimers d);
             d2 = d1\<lparr>sessionState := \<lparr>status = Running, startedAt = Some startTime,
                                        currentSliceIndex = 0\<rparr>,
                     nowState := startTime\<rparr>;
             d3 = d2\<lparr>activeIntervals := activeIntervals d2 @ [nextTimerId d2],
                     tickRef := Some (nextTimerId d2),
                     nextTimerId := nextTimerId d2 + 1\<rparr>
         in schedule_slices (int (length (timeline stats))) 0 (timeline stats) d3))"

text \<open>
  The callback of a slice's timeout, run by the browser when the delay has passed: the
  timeout leaves the table, the state is updated, the skip command is sent when the slice
  has \<open>skipAfter\<close> (the second component of the result; the token of the closure is the one
  that passed the guard of \<open>startSession\<close>), and the ticker is cleared after the last slice.
\<close>

definition fireTimer :: "SliceTimer \<Rightarrow> SessionDriver \<Rightarrow> SessionDriver \<times> bool" where
  "fireTimer t d =
     (let d1 = d\<lparr>pendingTimeouts := filter (\<lambda>u. timerId u \<noteq> timerId t) (pendingTimeouts d)\<rparr>;
          prev = sessionState d1;
          nextIndex = min (sliceIndex t + 1) (timelineLength t - 1);
          isLast = (sliceIndex t = timelineLength t - 1);
          d2 = (if startedAt prev = None then d1
                else d1\<lparr>sessionState :=
                          \<lparr>status = (if isLast then Completed else Running),
                           startedAt = startedAt prev,
                           currentSliceIndex = (if isLast then sliceIndex t else nextIndex)\<rparr>\<rparr>);
          d3 = (if sliceIndex t = timelineLength t - 1 then clearTicker d2 else d2)
      in (d3, timerSkipAfter t))"

text \<open>
  The effects that run after a render with the given tokens and plan statistics. The first
  stops a running session when the access token is gone. The second calls \<open>stopSession\<close>;
  its dependencies are \<open>stats.timeline.length\<close>, \<open>stats.totalDurationMs\<close> and
  \<open>stopSession\<close> (whose identity never changes), so React runs it after the first render and
  after a render in which one of the two numbers differs from its value at the last run.
\<close>

definition renderEffects ::
  "AuthTokens option \<Rightarrow> IntervalStats \<Rightarrow> SessionDriver \<Rightarrow> SessionDriver" where
  "renderEffects tokens stats d =
     (let d1 = (if \<not> hasAccessToken tokens \<and> status (sessionState d) = Running
                then stopSession d else d);
          deps = (int (length (timeline stats)), totalDurationMs stats)
      in if effectDeps d1 = Some deps then d1
         else (stopSession d1)\<lparr>effectDeps := Some deps\<rparr>)"


section \<open>Live playback observer (useCurrentlyPlaying, the version with trackId)\<close>

text \<open>
  A field \<open>durationMs\<close> also belongs to \<open>TimelineSlice\<close>, and \<open>status\<close> and \<open>error\<close> occur in
  several state types, so the fields of the following records carry a prefix where the
  source's name is taken: \<open>trackDurationMs\<close> is \<open>CurrentTrack.durationMs\<close>, and so on.
  Timestamps and progress values are integers of milliseconds.
\<close>

record CurrentTrack =
  trackId :: string
  trackName :: string
  artistNames :: string
  albumName :: string
  albumArtUrl :: "string option"
  isPlaying :: bool
  progressMs :: int
  trackDurationMs :: int
  updatedAt :: int

record HookState =
  track :: "CurrentTrack option"
  hookError :: "string option"
  isLoading :: bool
  initialized :: bool

definition INITIAL_HOOK_STATE :: HookState where
  "INITIAL_HOOK_STATE = \<lparr>track = None, hookError = None, isLoading = False, initialized = False\<rparr>"

text \<open>
  What the service answers, as far as \<open>fetchCurrentTrack\<close> reads it. An absent property is
  \<open>None\<close>; \<open>itemArtists\<close> is \<open>None\<close> when \<open>item.artists\<close> is not an array and otherwise the
  list of the artists' names; \<open>albumImages\<close> lists the \<open>url\<close> of each image.
\<close>

record SpotifyAlbum =
  albumNameField :: "string option"
  albumImages :: "string option list"

record SpotifyItem =
  itemId :: string
  itemName :: string
  itemArtists :: "string list option"
  itemAlbum :: "SpotifyAlbum option"
  itemDurationMs :: "int option"

record Payload =
  payloadItem :: "SpotifyItem option"
  payloadIsPlaying :: bool
  payloadProgressMs :: "int option"
  payloadErrorMessage :: "string option"

text \<open>
  The body of a response: \<open>json()\<close> rejects with a message, or yields \<open>null\<close>, or an object.
  The promise of \<open>fetch\<close> rejects with a message or resolves with a status and a body;
  \<open>response.ok\<close> holds for the statuses 200 to 299.
\<close>

datatype ResponseBody = BodyInvalid string | BodyNull | Body Payload

datatype FetchResult = FetchRejected string | FetchResponse nat ResponseBody

definition responseOk :: "nat \<Rightarrow> bool" where
  "responseOk st = (200 \<le> st \<and> st \<le> 299)"

text \<open>\<open>Array.prototype.join\<close> on a list of strings.\<close>

fun join :: "string \<Rightarrow> string list \<Rightarrow> string" where
  "join sep [] = []"
| "join sep [x] = x"
| "join sep (x # y # ys) = x @ sep @ join sep (y # ys)"

definition buildTrack :: "Payload \<Rightarrow> SpotifyItem \<Rightarrow> int \<Rightarrow> CurrentTrack" where
  "buildTrack payload item now =
     \<lparr>trackId = itemId item,
      trackName = itemName item,
      artistNames = (case itemArtists item of
                       Some names \<Rightarrow> join '', '' names
                     | None \<Rightarrow> ''Unknown artist''),
      albumName = (case itemAlbum item of
                     None \<Rightarrow> ''Unknown album''
                   | Some album \<Rightarrow>
                       (case albumNameField album of
                          None \<Rightarrow> ''Unknown album''
                        | Some n \<Rightarrow> n)),
      albumArtUrl = (case itemAlbum item of
                       None \<Rightarrow> None
                     | Some album \<Rightarrow>
                         (case albumImages album of [] \<Rightarrow> None | u # _ \<Rightarrow> u)),
      isPlaying = payloadIsPlaying payload,
      progressMs = (case payloadProgressMs payload of None \<Rightarrow> 0 | Some p \<Rightarrow> p),
      trackDurationMs = (case itemDurationMs item of None \<Rightarrow> 0 | Some dur \<Rightarrow> dur),
      updatedAt = now\<rparr>"

text \<open>The state update for "nothing is playing" (status 204, or no item in the payload).\<close>

definition noTrackUpdate :: "HookState \<Rightarrow> HookState" where
  "noTrackUpdate prev =
     (if \<not> initialized prev then
        \<lparr>track = None, hookError = None, isLoading = False, initialized = True\<rparr>
      else if track prev = None \<and> hookError prev = None \<and> \<not> isLoading prev then prev
      else prev\<lparr>track := None, hookError := None, isLoading := False, initialized := True\<rparr>)"

definition trackUpdate :: "CurrentTrack \<Rightarrow> HookState \<Rightarrow> HookState" where
  "trackUpdate nextTrack prev =
     (case track prev of
        Some pt \<Rightarrow>
          if trackId pt = trackId nextTrack \<and> isPlaying pt = isPlaying nextTrack \<and>
             albumArtUrl pt = albumArtUrl nextTrack \<and> artistNames pt = artistNames nextTrack \<and>
             albumName pt = albumName nextTrack \<and> trackDurationMs pt = trackDurationMs nextTrack
          then prev\<lparr>track := Some nextTrack, isLoading := False, hookError := None,
                    initialized := True\<rparr>
          else \<lparr>track = Some nextTrack, hookError = None, isLoading = False, initialized = True\<rparr>
      | None \<Rightarrow> \<lparr>track = Some nextTrack, hookError = None, isLoading = False, initialized = True\<rparr>)"

definition errorUpdate :: "string \<Rightarrow> HookState \<Rightarrow> HookState" where
  "errorUpdate message prev =
     (if hookError prev = Some message \<and> track prev = None \<and> initialized prev then prev
      else \<lparr>track = None, hookError = Some message, isLoading = False, initialized = True\<rparr>)"

text \<open>
  \<open>fetchCurrentTrack\<close>: the first update marks the first fetch as loading; then the result of
  the request is normalised at time \<open>now\<close>. Nothing is written once the effect is torn down
  (\<open>isActive\<close> false). A thrown error is caught and becomes the error string.
\<close>

definition fetchCurrentTrack :: "FetchResult \<Rightarrow> bool \<Rightarrow> int \<Rightarrow> HookState \<Rightarrow> HookState" where
  "fetchCurrentTrack res isActive now prev0 =
     (let prev = (if initialized prev0 then prev0 else prev0\<lparr>isLoading := True\<rparr>);
          caught = (\<lambda>message. if isActive then errorUpdate message prev else prev)
      in case res of
           FetchRejected message \<Rightarrow> caught message
         | FetchResponse st body \<Rightarrow>
             if st = 204 then (if isActive then noTrackUpdate prev else prev)
             else if \<not> responseOk st then
               caught (case body of
                         Body payload \<Rightarrow>
                           (case payloadErrorMessage payload of
                              Some m \<Rightarrow> m
                            | None \<Rightarrow> ''Failed to load current Spotify track.'')
                       | _ \<Rightarrow> ''Failed to load current Spotify track.'')
             else
               (case body of
                  BodyInvalid message \<Rightarrow> caught message
                | BodyNull \<Rightarrow> (if isActive then noTrackUpdate prev else prev)
                | Body payload \<Rightarrow>
                    (case payloadItem payload of
                       None \<Rightarrow> (if isActive then noTrackUpdate prev else prev)
                     | Some item \<Rightarrow>
                         if isActive then trackUpdate (buildTrack payload item now) prev
                         else prev)))"


section \<open>Song completion counter (useSongCounterSession)\<close>

datatype SongCounterStatus = CounterIdle | CounterRunning

record CompletedSong =
  songTrackId :: string
  songTrackName :: string
  songArtistNames :: string
  songDurationMs :: int

record ActiveTrackSnapshot =
  activeTrackId :: string
  activeTrackName :: string
  activeArtistNames :: string
  activeDurationMs :: int
  startProgressMs :: int
  latestProgressMs :: int

record SongCounterState =
  counterStatus :: SongCounterStatus
  songsCompleted :: int
  totalElapsedMs :: int
  lastSong :: "CompletedSong option"
  counterError :: "string option"

text \<open>The hook: its state, its two references and the busy flag.\<close>

record SongCounter =
  counterState :: SongCounterState
  activeTrackRef :: "ActiveTrackSnapshot option"
  lastFinalizedTrackIdRef :: "string option"
  isBusy :: bool

definition INITIAL_STATE :: SongCounterState where
  "INITIAL_STATE =
     \<lparr>counterStatus = CounterIdle, songsCompleted = 0, totalElapsedMs = 0, lastSong = None,
      counterError = None\<rparr>"

definition initialCounter :: SongCounter where
  "initialCounter =
     \<lparr>counterState = INITIAL_STATE, activeTrackRef = None, lastFinalizedTrackIdRef = None,
      isBusy = False\<rparr>"

text \<open>\<open>getLiveProgress\<close>; the second argument is the value of \<open>Date.now()\<close>.\<close>

definition getLiveProgress :: "CurrentTrack \<Rightarrow> int \<Rightarrow> int" where
  "getLiveProgress t now =
     (let drift = (if isPlaying t then max 0 (now - updatedAt t) else 0);
          estimated = progressMs t + drift
      in min (trackDurationMs t) (max 0 estimated))"

definition clearError :: "SongCounter \<Rightarrow> SongCounter" where
  "clearError h =
     (if counterError (counterState h) \<noteq> None
      then h\<lparr>counterState := (counterState h)\<lparr>counterError := None\<rparr>\<rparr>
      else h)"

definition finalizeActiveTrack :: "int option \<Rightarrow> SongCounter \<Rightarrow> SongCounter" where
  "finalizeActiveTrack overrideProgressMs h =
     (case activeTrackRef h of
        None \<Rightarrow> h
      | Some snapshot \<Rightarrow>
          (let latest = (case overrideProgressMs of
                           Some v \<Rightarrow> v
                         | None \<Rightarrow> latestProgressMs snapshot);
               cappedLatest = min (activeDurationMs snapshot) (max (startProgressMs snapshot) latest);
               playedMs = max 0 (cappedLatest - startProgressMs snapshot);
               h1 = h\<lparr>activeTrackRef := None,
                       lastFinalizedTrackIdRef := Some (activeTrackId snapshot)\<rparr>
           in if playedMs \<le> 0 then h1
              else h1\<lparr>counterState := (counterState h1)
                        \<lparr>songsCompleted := songsCompleted (counterState h1) + 1,
                         totalElapsedMs := totalElapsedMs (counterState h1) + playedMs,
                         lastSong := Some \<lparr>songTrackId = activeTrackId snapshot,
                                            songTrackName = activeTrackName snapshot,
                                            songArtistNames = activeArtistNames snapshot,
                                            songDurationMs = playedMs\<rparr>\<rparr>\<rparr>))"

definition beginTracking :: "CurrentTrack \<Rightarrow> int \<Rightarrow> SongCounter \<Rightarrow> SongCounter" where
  "beginTracking currentTrack now h =
     (let liveProgress = getLiveProgress currentTrack now
      in h\<lparr>activeTrackRef := Some \<lparr>activeTrackId = trackId currentTrack,
                                     activeTrackName = trackName currentTrack,
                                     activeArtistNames = artistNames currentTrack,
                                     activeDurationMs = trackDurationMs currentTrack,
                                     startProgressMs = liveProgress,
                                     latestProgressMs = liveProgress\<rparr>,
            lastFinalizedTrackIdRef := None\<rparr>)"

definition start :: "AuthTokens option \<Rightarrow> CurrentTrack option \<Rightarrow> int \<Rightarrow> SongCounter \<Rightarrow> SongCounter" where
  "start tokens trackNow now h =
     (case trackNow of
        None \<Rightarrow>
          h\<lparr>counterState := (counterState h)
              \<lparr>counterError := Some ''Start playback in Spotify before counting songs.''\<rparr>\<rparr>
      | Some t \<Rightarrow>
          if \<not> isPlaying t then
            h\<lparr>counterState := (counterState h)
                \<lparr>counterError := Some ''Start playback in Spotify before counting songs.''\<rparr>\<rparr>
          else if \<not> hasAccessToken tokens then
            h\<lparr>counterState := (counterState h)
                \<lparr>counterError := Some ''Spotify access expired. Reconnect and try again.''\<rparr>\<rparr>
          else
            beginTracking t now
              (h\<lparr>counterState := \<lparr>counterStatus = CounterRunning, songsCompleted = 0,
                                   totalElapsedMs = 0, lastSong = None, counterError = None\<rparr>\<rparr>))"

definition stop :: "SongCounter \<Rightarrow> SongCounter" where
  "stop h =
     (if counterStatus (counterState h) = CounterIdle then h
      else
        (let h1 = finalizeActiveTrack None h;
             h2 = h1\<lparr>activeTrackRef := None, lastFinalizedTrackIdRef := None, isBusy := False\<rparr>
         in h2\<lparr>counterState := (counterState h2)\<lparr>counterStatus := CounterIdle\<rparr>\<rparr>))"

text \<open>
  \<open>skip\<close> runs up to the \<open>await\<close> of the request (\<open>skipIssue\<close>, whose second component tells
  whether the request was sent) and resumes when the promise of \<open>fetch\<close> settles
  (\<open>skipSettle\<close>). The promise rejects when the request cannot be made; a response of any
  status resolves it, and \<open>skip\<close> does not read the response.
\<close>

datatype SkipOutcome = SkipRejected | SkipResponded nat

definition skipIssue ::
  "AuthTokens option \<Rightarrow> CurrentTrack option \<Rightarrow> int \<Rightarrow> SongCounter \<Rightarrow> SongCounter \<times> bool" where
  "skipIssue tokens trackNow now h =
     (if counterStatus (counterState h) \<noteq> CounterRunning then (h, False)
      else
        (let h1 = (case trackNow of
                     Some current \<Rightarrow> finalizeActiveTrack (Some (getLiveProgress current now)) h
                   | None \<Rightarrow> finalizeActiveTrack None h)
         in if \<not> hasAccessToken tokens then (h1, False)
            else (clearError (h1\<lparr>isBusy := True\<rparr>), True)))"

definition skipSettle :: "SkipOutcome \<Rightarrow> SongCounter \<Rightarrow> SongCounter" where
  "skipSettle outcome h =
     (let h1 = (case outcome of
                  SkipRejected \<Rightarrow>
                    h\<lparr>counterState := (counterState h)
                        \<lparr>counterError :=
                           Some ''Could not skip track. Check your Spotify app and try again.''\<rparr>\<rparr>
                | SkipResponded st \<Rightarrow> h)
      in h1\<lparr>isBusy := False\<rparr>)"

definition skip ::
  "AuthTokens option \<Rightarrow> CurrentTrack option \<Rightarrow> int \<Rightarrow> SkipOutcome \<Rightarrow> SongCounter \<Rightarrow> SongCounter" where
  "skip tokens trackNow now outcome h =
     (case skipIssue tokens trackNow now h of
        (h1, issued) \<Rightarrow> if issued then skipSettle outcome h1 else h1)"

text \<open>The effect that processes the current track after a render, while running.\<close>

definition processSnapshot :: "CurrentTrack option \<Rightarrow> int \<Rightarrow> SongCounter \<Rightarrow> SongCounter" where
  "processSnapshot trackNow now h =
     (if counterStatus (counterState h) \<noteq> CounterRunning then h
      else
        (case trackNow of
           None \<Rightarrow>
             (finalizeActiveTrack None h)\<lparr>activeTrackRef := None, lastFinalizedTrackIdRef := None\<rparr>
         | Some t \<Rightarrow>
             if lastFinalizedTrackIdRef h = Some (trackId t) \<and> activeTrackRef h = None then h
             else
               (case activeTrackRef h of
                  None \<Rightarrow> beginTracking t now h
                | Some active \<Rightarrow>
                    if activeTrackId active = trackId t then
                      h\<lparr>activeTrackRef := Some (active
                          \<lparr>latestProgressMs := getLiveProgress t now,
                           activeDurationMs := trackDurationMs t,
                           activeTrackName := trackName t,
                           activeArtistNames := artistNames t\<rparr>)\<rparr>
                    else beginTracking t now (finalizeActiveTrack None h))))"

text \<open>The events of a counting session and the step each one takes.\<close>

datatype CounterEvent =
    Start "AuthTokens option" "CurrentTrack option" int
  | Stop
  | SkipIssue "AuthTokens option" "CurrentTrack option" int
  | SkipSettle SkipOutcome
  | Snapshot "CurrentTrack option" int
  | ClearError

fun counterStep :: "CounterEvent \<Rightarrow> SongCounter \<Rightarrow> SongCounter" where
  "counterStep (Start tokens trackNow now) h = start tokens trackNow now h"
| "counterStep Stop h = stop h"
| "counterStep (SkipIssue tokens trackNow now) h = fst (skipIssue tokens trackNow now h)"
| "counterStep (SkipSettle outcome) h = skipSettle outcome h"
| "counterStep (Snapshot trackNow now) h = processSnapshot trackNow now h"
| "counterStep ClearError h = clearError h"

fun isStart :: "CounterEvent \<Rightarrow> bool" where
  "isStart (Start tokens trackNow now) = True"
| "isStart ev = False"



section \<open>Predicates of the statements\<close>

text \<open>
  How one step may change the two totals: it keeps both, or it adds one song and the played
  time of the song it recorded, which is positive.
\<close>

definition counts_kept :: "SongCounter \<Rightarrow> SongCounter \<Rightarrow> bool" where
  "counts_kept h h' =
     (songsCompleted (counterState h') = songsCompleted (counterState h) \<and>
      totalElapsedMs (counterState h') = totalElapsedMs (counterState h))"

definition counts_bumped :: "SongCounter \<Rightarrow> SongCounter \<Rightarrow> bool" where
  "counts_bumped h h' =
     (songsCompleted (counterState h') = songsCompleted (counterState h) + 1 \<and>
      (\<exists>song. lastSong (counterState h') = Some song \<and> 0 < songDurationMs song \<and>
         totalElapsedMs (counterState h') = totalElapsedMs (counterState h) + songDurationMs song))"

text \<open>A run of the counter over a list of events.\<close>

fun runEvents :: "CounterEvent list \<Rightarrow> SongCounter \<Rightarrow> SongCounter" where
  "runEvents [] h = h"
| "runEvents (ev # evs) h = runEvents evs (counterStep ev h)"

text \<open>
  The drivers that the hook can be in: after mounting, after the effects of a render, after
  \<open>startSession\<close> or \<open>stopSession\<close>, after the callback of a pending timeout, and after a
  tick of the display clock. In each of them every pending timeout is tracked by
  \<open>timersRef\<close>.
\<close>

inductive reachable :: "SessionDriver \<Rightarrow> bool" where
  mount: "reachable (initialDriver t0)"
| render: "reachable d \<Longrightarrow> reachable (renderEffects tokens stats d)"
| started: "reachable d \<Longrightarrow> reachable (startSession tokens stats now d)"
| stopped: "reachable d \<Longrightarrow> reachable (stopSession d)"
| fired: "reachable d \<Longrightarrow> t \<in> set (pendingTimeouts d) \<Longrightarrow> reachable (fst (fireTimer t d))"
| tick: "reachable d \<Longrightarrow> reachable (d\<lparr>nowState := n\<rparr>)"

definition timers_tracked :: "SessionDriver \<Rightarrow> bool" where
  "timers_tracked d = (\<forall>t \<in> set (pendingTimeouts d). timerId t \<in> set (timersRef d))"



section \<open>Example values\<close>

text \<open>Concrete inputs at which the theorems below are instantiated.\<close>

definition exampleTokens :: AuthTokens where
  "exampleTokens =
     \<lparr>accessToken = ''token'', refreshToken = Some ''refresh'', expiresAt = 3600000,
      scope = ''user-modify-playback-state'', tokenType = ''Bearer''\<rparr>"

definition exampleTrack :: CurrentTrack where
  "exampleTrack =
     \<lparr>trackId = ''t1'', trackName = ''Song'', artistNames = ''Artist'', albumName = ''Album'',
      albumArtUrl = None, isPlaying = True, progressMs = 10000, trackDurationMs = 200000,
      updatedAt = 1000\<rparr>"

definition nextTrack :: CurrentTrack where
  "nextTrack =
     \<lparr>trackId = ''t2'', trackName = ''Next song'', artistNames = ''Artist'',
      albumName = ''Album'', albumArtUrl = None, isPlaying = True, progressMs = 500,
      trackDurationMs = 180000, updatedAt = 2000\<rparr>"

definition exampleActive :: ActiveTrackSnapshot where
  "exampleActive =
     \<lparr>activeTrackId = ''t1'', activeTrackName = ''Song'', activeArtistNames = ''Artist'',
      activeDurationMs = 200000, startProgressMs = 10000, latestProgressMs = 200000\<rparr>"

definition exampleCounter :: SongCounter where
  "exampleCounter =
     \<lparr>counterState = \<lparr>counterStatus = CounterRunning, songsCompleted = 2,
                       totalElapsedMs = 300000, lastSong = None, counterError = None\<rparr>,
      activeTrackRef = Some exampleActive, lastFinalizedTrackIdRef = None, isBusy = False\<rparr>"

definition exampleItem :: SpotifyItem where
  "exampleItem =
     \<lparr>itemId = ''t1'', itemName = ''Song'', itemArtists = None,
      itemAlbum = Some \<lparr>albumNameField = None, albumImages = []\<rparr>,
      itemDurationMs = Some 200000\<rparr>"

definition examplePayload :: Payload where
  "examplePayload =
     \<lparr>payloadItem = Some exampleItem, payloadIsPlaying = True, payloadProgressMs = Some 10000,
      payloadErrorMessage = None\<rparr>"

definition noArtistsPayload :: Payload where
  "noArtistsPayload =
     \<lparr>payloadItem = Some (exampleItem\<lparr>itemArtists := Some []\<rparr>), payloadIsPlaying = True,
      payloadProgressMs = Some 10000, payloadErrorMessage = None\<rparr>"

definition examplePlanA :: IntervalPlan where
  "examplePlanA = \<lparr>totalMinutes = 4, includeThirtySeconds = False, sliceLengthSeconds = 120\<rparr>"

definition examplePlanB :: IntervalPlan where
  "examplePlanB = \<lparr>totalMinutes = 4, includeThirtySeconds = False, sliceLengthSeconds = 150\<rparr>"

definition statsA :: IntervalStats where
  "statsA =
     \<lparr>totalDurationMs = 240000, baseSliceDurationMs = 120000, fullSlices = 2, remainderMs = 0,
      timeline =
        [\<lparr>index = 0, durationMs = 120000, startMs = 0, endMs = 120000, isRemainder = False,
          skipAfter = True\<rparr>,
         \<lparr>index = 1, durationMs = 120000, startMs = 120000, endMs = 240000, isRemainder = False,
          skipAfter = False\<rparr>],
      skipCount = 1\<rparr>"

definition statsB :: IntervalStats where
  "statsB =
     \<lparr>totalDurationMs = 240000, baseSliceDurationMs = 150000, fullSlices = 1, remainderMs = 90000,
      timeline =
        [\<lparr>index = 0, durationMs = 150000, startMs = 0, endMs = 150000, isRemainder = False,
          skipAfter = True\<rparr>,
         \<lparr>index = 1, durationMs = 90000, startMs = 150000, endMs = 240000, isRemainder = True,
          skipAfter = False\<rparr>],
      skipCount = 1\<rparr>"

definition runningA :: SessionDriver where
  "runningA =
     startSession (Some exampleTokens) statsA 0
       (renderEffects (Some exampleTokens) statsA (initialDriver 0))"

definition emptyStats :: IntervalStats where
  "emptyStats =
     \<lparr>totalDurationMs = 0, baseSliceDurationMs = 120000, fullSlices = 0, remainderMs = 0,
      timeline = [], skipCount = 0\<rparr>"




definition emptyScheduler :: RefreshScheduler where
  "emptyScheduler = \<lparr>refreshTimeoutRef = None, pendingRefreshes = [], nextRefreshId = 1\<rparr>"

section \<open>The timeline of a plan\<close>

lemma timeline_loop_closed:
  "(idx < n \<longrightarrow> c = idx * s) \<Longrightarrow>
   timeline_loop n r s idx c acc = acc @ map (mk_slice n r s) [idx..n - 1]"
proof (induction n r s idx c acc rule: timeline_loop.induct)
  case (1 n r s idx c acc)
  show ?case
  proof (cases "idx < n")
    case False
    then show ?thesis by (subst timeline_loop.simps) simp
  next
    case True
    have c: "c = idx * s" using True "1.prems" by simp
    let ?dur = "if idx = n - 1 \<and> r > 0 then r else s"
    have next_inv: "idx + 1 < n \<longrightarrow> c + ?dur = (idx + 1) * s"
      using c by (auto simp: algebra_simps)
    have step: "timeline_loop n r s idx c acc =
          timeline_loop n r s (idx + 1) (c + ?dur) (acc @ [mk_slice n r s idx])"
      using True c by (subst timeline_loop.simps) (simp add: Let_def mk_slice_def)
    have ih: "timeline_loop n r s (idx + 1) (c + ?dur) (acc @ [mk_slice n r s idx]) =
          (acc @ [mk_slice n r s idx]) @ map (mk_slice n r s) [idx + 1..n - 1]"
      using "1.IH"[OF True refl refl refl refl refl] next_inv c
      by (simp add: Let_def mk_slice_def)
    have "[idx..n - 1] = idx # [idx + 1..n - 1]"
      using True by (simp add: upto_rec1)
    with step ih show ?thesis by simp
  qed
qed

lemma sum_durations_closed:
  assumes "1 \<le> n"
  shows "sum_list (map durationMs (map (mk_slice n r s) [0..n - 1])) =
         (n - 1) * s + (if r > 0 then r else s)"
proof -
  have split: "[0..n - 1] = [0..n - 2] @ [n - 1]"
    using assms upto_rec2[of 0 "n - 1"] by (simp add: algebra_simps)
  have "map durationMs (map (mk_slice n r s) [0..n - 2]) = map (\<lambda>_. s) [0..n - 2]"
    by (auto simp: mk_slice_def)
  then have "sum_list (map durationMs (map (mk_slice n r s) [0..n - 2])) =
             sum_list (map (\<lambda>_. s) [0..n - 2])"
    by (rule arg_cong)
  also have "\<dots> = int (length [0..n - 2]) * s"
    by (simp add: sum_list_triv)
  also have "\<dots> = (n - 1) * s"
    using assms by simp
  finally have "sum_list (map durationMs (map (mk_slice n r s) [0..n - 2])) = (n - 1) * s" .
  then show ?thesis
    unfolding split by (simp add: mk_slice_def)
qed



lemma closed_length: "1 \<le> n \<Longrightarrow> length (map (mk_slice n r s) [0..n - 1]) = nat n"
  by simp

lemma closed_nth:
  "i < nat n \<Longrightarrow> map (mk_slice n r s) [0..n - 1] ! i = mk_slice n r s (int i)"
  by (simp add: nth_upto)

lemma computeTimeline_closed:
  assumes "0 < sliceLengthSeconds plan" and "0 < totalMs plan"
  shows "\<exists>n r s st. computeTimeline plan = Some st \<and>
           timeline st = map (mk_slice n r s) [0..n - 1] \<and>
           totalDurationMs st = totalMs plan \<and>
           1 \<le> n \<and> (n - 1) * s + (if r > 0 then r else s) = totalMs plan"
proof -
  define s where "s = sliceLengthSeconds plan * 1000"
  define full where "full = totalMs plan div s"
  define r where "r = totalMs plan - full * s"
  define n where "n = full + (if r > 0 \<or> full = 0 then 1 else 0)"
  have s: "0 < s" using assms(1) by (simp add: s_def)
  have full: "0 \<le> full" using s assms(2) by (simp add: full_def pos_imp_zdiv_nonneg_iff)
  have r: "r = totalMs plan mod s"
    by (simp add: r_def full_def minus_div_mult_eq_mod)
  have r0: "0 \<le> r" using s by (simp add: r)
  have f0: "full = 0 \<Longrightarrow> 0 < r" using assms(2) by (simp add: r_def)
  have n: "1 \<le> n" using full f0 by (auto simp: n_def)
  have tot: "(n - 1) * s + (if r > 0 then r else s) = totalMs plan"
    using f0 r0 by (auto simp: n_def r_def algebra_simps)
  have loop: "timeline_loop n r s 0 0 [] = map (mk_slice n r s) [0..n - 1]"
    using timeline_loop_closed[of 0 n 0 s r "[]"] by simp
  have "computeTimeline plan =
           Some \<lparr>totalDurationMs = totalMs plan, baseSliceDurationMs = s, fullSlices = full,
                 remainderMs = r, timeline = timeline_loop n r s 0 0 [],
                 skipCount = max 0 (int (length (timeline_loop n r s 0 0 [])) - 1)\<rparr>"
    using assms(2) s unfolding computeTimeline_def Let_def n_def r_def full_def s_def
    by simp
  then have "computeTimeline plan =
           Some \<lparr>totalDurationMs = totalMs plan, baseSliceDurationMs = s, fullSlices = full,
                 remainderMs = r, timeline = map (mk_slice n r s) [0..n - 1],
                 skipCount = max 0 (int (length (map (mk_slice n r s) [0..n - 1])) - 1)\<rparr>"
      (is "_ = Some ?st")
    by (simp only: loop)
  then have "computeTimeline plan = Some ?st \<and>
      timeline ?st = map (mk_slice n r s) [0..n - 1] \<and>
      totalDurationMs ?st = totalMs plan"
    by simp
  with n tot show ?thesis by blast
qed

text \<open>
  Claim C1. For every plan with a positive slice length (every enumerated option is
  positive) whose total duration is greater than 0, \<open>computeTimeline\<close> returns, and the
  timeline is not empty, its slices are contiguous (the end of each slice is the start of
  the next), the durations of the slices add up to \<open>totalDurationMs\<close>, and \<open>skipAfter\<close>
  is false for the last slice and for no other.
\<close>

theorem computeTimeline_contiguous_total_skip:
  assumes "0 < sliceLengthSeconds plan" and "0 < totalMs plan"
  shows "\<exists>st. computeTimeline plan = Some st \<and>
           timeline st \<noteq> [] \<and>
           totalDurationMs st = totalMs plan \<and>
           (\<forall>i. Suc i < length (timeline st) \<longrightarrow>
                endMs (timeline st ! i) = startMs (timeline st ! Suc i)) \<and>
           sum_list (map durationMs (timeline st)) = totalDurationMs st \<and>
           (\<forall>i < length (timeline st).
                skipAfter (timeline st ! i) = (Suc i < length (timeline st)))"
proof -
  from computeTimeline_closed[OF assms] obtain n r s st where
    st: "computeTimeline plan = Some st" and
    tl: "timeline st = map (mk_slice n r s) [0..n - 1]" and
    td: "totalDurationMs st = totalMs plan" and
    n: "1 \<le> n" and
    tot: "(n - 1) * s + (if r > 0 then r else s) = totalMs plan"
    by blast
  define tl where "tl = timeline st"
  have tl_def': "tl = map (mk_slice n r s) [0..n - 1]" using tl by (simp add: tl_def)
  have len: "length tl = nat n" using n by (simp add: tl_def')
  have nth: "\<And>i. i < nat n \<Longrightarrow> tl ! i = mk_slice n r s (int i)"
    unfolding tl_def' by (rule closed_nth)
  have ne: "tl \<noteq> []" using len n by auto
  have contig: "\<forall>i. Suc i < length tl \<longrightarrow> endMs (tl ! i) = startMs (tl ! Suc i)"
  proof (intro allI impI)
    fix i assume a: "Suc i < length tl"
    then have "int i \<noteq> n - 1" using len by auto
    then show "endMs (tl ! i) = startMs (tl ! Suc i)"
      using a len by (simp add: nth mk_slice_def algebra_simps)
  qed
  have total: "sum_list (map durationMs tl) = totalMs plan"
    unfolding tl_def' using sum_durations_closed[OF n, of r s] tot by simp
  have skip: "\<forall>i < length tl. skipAfter (tl ! i) = (Suc i < length tl)"
  proof (intro allI impI)
    fix i assume a: "i < length tl"
    then show "skipAfter (tl ! i) = (Suc i < length tl)"
      using len by (auto simp: nth mk_slice_def)
  qed
  show ?thesis
    using st td ne contig total skip unfolding tl_def by simp
qed



theorem computeTimeline_contiguous_total_skip_witness:
  "0 < sliceLengthSeconds \<lparr>totalMinutes = 3, includeThirtySeconds = True, sliceLengthSeconds = 60\<rparr> \<and>
   0 < totalMs \<lparr>totalMinutes = 3, includeThirtySeconds = True, sliceLengthSeconds = 60\<rparr> \<and>
   (\<exists>st. computeTimeline \<lparr>totalMinutes = 3, includeThirtySeconds = True, sliceLengthSeconds = 60\<rparr> = Some st \<and>
         timeline st \<noteq> [] \<and>
         totalDurationMs st = 210000 \<and>
         (\<forall>i. Suc i < length (timeline st) \<longrightarrow>
              endMs (timeline st ! i) = startMs (timeline st ! Suc i)) \<and>
         sum_list (map durationMs (timeline st)) = totalDurationMs st \<and>
         (\<forall>i < length (timeline st).
              skipAfter (timeline st ! i) = (Suc i < length (timeline st))))"
proof -
  let ?p = "\<lparr>totalMinutes = 3, includeThirtySeconds = True, sliceLengthSeconds = 60\<rparr>"
  have h1: "0 < sliceLengthSeconds ?p" by simp
  have h2: "0 < totalMs ?p" by (simp add: totalMs_def)
  have t: "totalMs ?p = 210000" by (simp add: totalMs_def)
  show ?thesis
    using computeTimeline_contiguous_total_skip[OF h1 h2] h1 h2 unfolding t by blast
qed


section \<open>Sanitization of the slice length\<close>

lemma normalized_in_options:
  "max 30 (min 210 (k * 30)) \<in> set SLICE_OPTIONS_SECONDS"
proof -
  have "k \<le> 1 \<or> k = 2 \<or> k = 3 \<or> k = 4 \<or> k = 5 \<or> k = 6 \<or> 7 \<le> k" by arith
  then show ?thesis
    by (auto simp: SLICE_OPTIONS_SECONDS_def)
qed

lemma sanitize_finite:
  "sanitizeSliceSeconds (Num x) = max 30 (min 210 (math_round (x / 30) * 30))"
  using normalized_in_options[of "math_round (x / 30)"]
  by (simp add: sanitizeSliceSeconds_def Let_def)

lemma math_round_bounds:
  "30 * real_of_int (math_round (x / 30)) - 15 \<le> x" 
  "x < 30 * real_of_int (math_round (x / 30)) + 15"
proof -
  have "real_of_int (math_round (x / 30)) \<le> x / 30 + 1 / 2"
    unfolding math_round_def by (rule of_int_floor_le)
  then show "30 * real_of_int (math_round (x / 30)) - 15 \<le> x" by simp
  have "x / 30 + 1 / 2 < real_of_int (math_round (x / 30)) + 1"
    unfolding math_round_def by (rule floor_correct[THEN conjunct2, simplified] | simp)+
  then show "x < 30 * real_of_int (math_round (x / 30)) + 15" by simp
qed

lemma options_multiples:
  "opt \<in> set SLICE_OPTIONS_SECONDS \<Longrightarrow> \<exists>j. opt = 30 * j \<and> 1 \<le> j \<and> j \<le> 7"
  by (auto simp: SLICE_OPTIONS_SECONDS_def)

lemma nearest_real:
  fixes K J v :: real
  assumes "30 * K - 15 \<le> v" "v < 30 * K + 15" "J = K \<or> J \<le> K - 1 \<or> K + 1 \<le> J"
    "1 \<le> J" "J \<le> 7"
  shows "\<bar>max 30 (min 210 (30 * K)) - v\<bar> \<le> \<bar>30 * J - v\<bar>"
  using assms by (auto simp: max_def min_def abs_if split: if_splits)

lemma sanitize_nearest:
  assumes "opt \<in> set SLICE_OPTIONS_SECONDS"
  shows "\<bar>real_of_int (sanitizeSliceSeconds (Num x)) - x\<bar> \<le> \<bar>real_of_int opt - x\<bar>"
proof -
  obtain j where j: "opt = 30 * j" "1 \<le> j" "j \<le> 7"
    using options_multiples[OF assms] by blast
  define k where "k = math_round (x / 30)"
  have tri: "real_of_int j = real_of_int k \<or> real_of_int j \<le> real_of_int k - 1 \<or>
        real_of_int k + 1 \<le> real_of_int j"
  proof -
    have "j = k \<or> j \<le> k - 1 \<or> k + 1 \<le> j" by arith
    then show ?thesis by (metis of_int_le_iff of_int_add of_int_diff of_int_1)
  qed
  have res: "real_of_int (sanitizeSliceSeconds (Num x)) = max 30 (min 210 (30 * real_of_int k))"
    by (simp add: sanitize_finite k_def max_def min_def)
  have "\<bar>max 30 (min 210 (30 * real_of_int k)) - x\<bar> \<le> \<bar>30 * real_of_int j - x\<bar>"
    using math_round_bounds[of x] tri j(2,3)
    by (intro nearest_real) (simp_all add: k_def)
  then show ?thesis
    by (simp add: res j(1))
qed


lemma clamp_then_round:
  "math_round (max 30 (min 210 x) / 30) * 30 = max 30 (min 210 (math_round (x / 30) * 30))"
proof -
  consider "x \<le> 30" | "30 < x" "x < 210" | "210 \<le> x" by linarith
  then show ?thesis
  proof cases
    case 1
    have k: "math_round (x / 30) \<le> 1"
      using 1 by (simp add: math_round_def floor_le_iff)
    have l: "max 30 (min 210 x) = 30" using 1 by simp
    have "math_round (30 / 30) = 1" by (simp add: math_round_def)
    then have lhs: "math_round (max 30 (min 210 x) / 30) * 30 = 30" by (simp add: l)
    have rhs: "max 30 (min 210 (math_round (x / 30) * 30)) = 30" using k by simp
    show ?thesis by (simp only: lhs rhs)
  next
    case 2
    have k: "1 \<le> math_round (x / 30)" "math_round (x / 30) \<le> 7"
      using 2 by (simp_all add: math_round_def le_floor_iff floor_le_iff)
    have l: "max 30 (min 210 x) = x" using 2 by simp
    have rhs: "max 30 (min 210 (math_round (x / 30) * 30)) = math_round (x / 30) * 30"
      using k by simp
    show ?thesis by (simp only: l rhs)
  next
    case 3
    have k: "7 \<le> math_round (x / 30)"
      using 3 by (simp add: math_round_def le_floor_iff)
    have l: "max 30 (min 210 x) = 210" using 3 by simp
    have "math_round (210 / 30) = 7" by (simp add: math_round_def)
    then have lhs: "math_round (max 30 (min 210 x) / 30) * 30 = 210" by (simp add: l)
    have rhs: "max 30 (min 210 (math_round (x / 30) * 30)) = 210" using k by simp
    show ?thesis by (simp only: lhs rhs)
  qed
qed

text \<open>
  Claim C5. A finite slice length is rounded to the nearest multiple of 30 and clamped to
  \<open>[30, 210]\<close> (clamping first and rounding afterwards gives the same value); the result
  is an enumerated option and no option is nearer to the input. The non-finite values map
  to the slice length of the default plan, which is 120.
\<close>

theorem sanitizeSliceSeconds_nearest_option_or_default:
  "sanitizeSliceSeconds (Num x) = max 30 (min 210 (math_round (x / 30) * 30)) \<and>
   sanitizeSliceSeconds (Num x) = math_round (max 30 (min 210 x) / 30) * 30 \<and>
   sanitizeSliceSeconds (Num x) \<in> set SLICE_OPTIONS_SECONDS \<and>
   (\<forall>opt \<in> set SLICE_OPTIONS_SECONDS.
      \<bar>real_of_int (sanitizeSliceSeconds (Num x)) - x\<bar> \<le> \<bar>real_of_int opt - x\<bar>) \<and>
   sliceLengthSeconds DEFAULT_PLAN = 120 \<and>
   sanitizeSliceSeconds NaN = 120 \<and>
   sanitizeSliceSeconds PosInfinity = 120 \<and>
   sanitizeSliceSeconds NegInfinity = 120"
  using sanitize_nearest[of _ x] normalized_in_options[of "math_round (x / 30)"]
  by (simp add: sanitize_finite clamp_then_round)
     (simp add: sanitizeSliceSeconds_def DEFAULT_PLAN_def)

theorem sanitizeSliceSeconds_nearest_option_or_default_witness:
  "120 \<in> set SLICE_OPTIONS_SECONDS \<and>
   sanitizeSliceSeconds (Num 100) = 90 \<and>
   \<bar>real_of_int (sanitizeSliceSeconds (Num 100)) - 100\<bar> \<le> \<bar>real_of_int 120 - 100\<bar> \<and>
   sanitizeSliceSeconds NaN = 120"
proof -
  have m: "120 \<in> set SLICE_OPTIONS_SECONDS" by (simp add: SLICE_OPTIONS_SECONDS_def)
  have r: "math_round (10 / 3) = 3" by (simp add: math_round_def)
  note inst = sanitizeSliceSeconds_nearest_option_or_default[of 100]
  have v: "sanitizeSliceSeconds (Num 100) = 90" using inst by (simp add: r)
  have n: "\<bar>real_of_int (sanitizeSliceSeconds (Num 100)) - 100\<bar> \<le> \<bar>real_of_int 120 - 100\<bar>"
    using inst m by blast
  from m v n inst show ?thesis by blast
qed

subsection \<open>The invariant of the plan\<close>

lemma sanitizeSliceSeconds_in_options: "sanitizeSliceSeconds v \<in> set SLICE_OPTIONS_SECONDS"
proof (cases v)
  case (Num x)
  then show ?thesis
    using normalized_in_options[of "math_round (x / 30)"] by (simp add: sanitize_finite)
qed (simp_all add: sanitizeSliceSeconds_def DEFAULT_PLAN_def SLICE_OPTIONS_SECONDS_def)

lemma options_positive: "x \<in> set SLICE_OPTIONS_SECONDS \<Longrightarrow> 0 < x"
  by (auto simp: SLICE_OPTIONS_SECONDS_def)

lemma clampMinutes_nonneg: "0 \<le> clampMinutes v"
  by (cases v) (simp_all add: clampMinutes_def)

lemma validPlan_DEFAULT_PLAN: "validPlan DEFAULT_PLAN"
  by (simp add: validPlan_def DEFAULT_PLAN_def SLICE_OPTIONS_SECONDS_def)

lemma validPlan_preserved:
  assumes "validPlan plan"
  shows "validPlan (incrementMinutes plan)"
    and "validPlan (decrementMinutes plan)"
    and "validPlan (setIncludeThirtySeconds b plan)"
    and "validPlan (selectSliceLength v plan)"
    and "validPlan (resetPlan plan)"
  using assms sanitizeSliceSeconds_in_options[of v] validPlan_DEFAULT_PLAN
  by (simp_all add: validPlan_def incrementMinutes_def decrementMinutes_def
      setIncludeThirtySeconds_def selectSliceLength_def resetPlan_def clampMinutes_def)

lemma validPlan_slice_positive: "validPlan plan \<Longrightarrow> 0 < sliceLengthSeconds plan"
  by (simp add: validPlan_def options_positive)

section \<open>The song completion counter\<close>

lemma getLiveProgress_range:
  "0 \<le> trackDurationMs t \<Longrightarrow> 0 \<le> getLiveProgress t now \<and> getLiveProgress t now \<le> trackDurationMs t"
  by (simp add: getLiveProgress_def Let_def)

lemma getLiveProgress_le_duration: "getLiveProgress t now \<le> trackDurationMs t"
  by (simp add: getLiveProgress_def Let_def)

text \<open>
  Claim C3, amended. \<open>getLiveProgress\<close> returns \<open>progressMs\<close> plus the time elapsed since
  the snapshot was observed (taken as 0 when negative) when the track is playing, and
  \<open>progressMs\<close> alone when it is paused, in both cases clamped to \<open>[0, durationMs]\<close>. The
  projection of a playing track is exact while it stays inside that range, and the progress
  of a paused track is returned as it is when it lies inside that range.
\<close>

theorem getLiveProgress_clamped_projection:
  "getLiveProgress t now =
     (if isPlaying t
      then min (trackDurationMs t) (max 0 (progressMs t + max 0 (now - updatedAt t)))
      else min (trackDurationMs t) (max 0 (progressMs t))) \<and>
   (isPlaying t \<and> updatedAt t \<le> now \<and> 0 \<le> progressMs t + (now - updatedAt t) \<and>
      progressMs t + (now - updatedAt t) \<le> trackDurationMs t \<longrightarrow>
      getLiveProgress t now = progressMs t + (now - updatedAt t)) \<and>
   (\<not> isPlaying t \<and> 0 \<le> progressMs t \<and> progressMs t \<le> trackDurationMs t \<longrightarrow>
      getLiveProgress t now = progressMs t)"
  by (simp add: getLiveProgress_def Let_def)

text \<open>
  As stated, the claim fails for a paused track whose progress lies outside
  \<open>[0, durationMs]\<close>: with a duration of 0 (the value \<open>fetchCurrentTrack\<close> uses when the
  service reports none) and a progress of 5000 the result is 0.
\<close>

theorem getLiveProgress_paused_counterexample:
  "\<not> isPlaying \<lparr>trackId = ''t1'', trackName = ''Song'', artistNames = ''Artist'',
        albumName = ''Album'', albumArtUrl = None, isPlaying = False, progressMs = 5000,
        trackDurationMs = 0, updatedAt = 1000\<rparr> \<and>
   getLiveProgress \<lparr>trackId = ''t1'', trackName = ''Song'', artistNames = ''Artist'',
        albumName = ''Album'', albumArtUrl = None, isPlaying = False, progressMs = 5000,
        trackDurationMs = 0, updatedAt = 1000\<rparr> 2000 = 0 \<and>
   getLiveProgress \<lparr>trackId = ''t1'', trackName = ''Song'', artistNames = ''Artist'',
        albumName = ''Album'', albumArtUrl = None, isPlaying = False, progressMs = 5000,
        trackDurationMs = 0, updatedAt = 1000\<rparr> 2000 \<noteq>
   progressMs \<lparr>trackId = ''t1'', trackName = ''Song'', artistNames = ''Artist'',
        albumName = ''Album'', albumArtUrl = None, isPlaying = False, progressMs = 5000,
        trackDurationMs = 0, updatedAt = 1000\<rparr>"
  by (simp add: getLiveProgress_def Let_def)

theorem getLiveProgress_clamped_projection_witness:
  "getLiveProgress \<lparr>trackId = ''t1'', trackName = ''Song'', artistNames = ''Artist'',
        albumName = ''Album'', albumArtUrl = None, isPlaying = True, progressMs = 10000,
        trackDurationMs = 200000, updatedAt = 1000\<rparr> 4000 = 13000 \<and>
   getLiveProgress \<lparr>trackId = ''t1'', trackName = ''Song'', artistNames = ''Artist'',
        albumName = ''Album'', albumArtUrl = None, isPlaying = False, progressMs = 10000,
        trackDurationMs = 200000, updatedAt = 1000\<rparr> 4000 = 10000"
  using getLiveProgress_clamped_projection[of "\<lparr>trackId = ''t1'', trackName = ''Song'',
        artistNames = ''Artist'', albumName = ''Album'', albumArtUrl = None, isPlaying = True,
        progressMs = 10000, trackDurationMs = 200000, updatedAt = 1000\<rparr>" 4000]
    getLiveProgress_clamped_projection[of "\<lparr>trackId = ''t1'', trackName = ''Song'',
        artistNames = ''Artist'', albumName = ''Album'', albumArtUrl = None, isPlaying = False,
        progressMs = 10000, trackDurationMs = 200000, updatedAt = 1000\<rparr>" 4000]
  by simp

lemma finalize_none: "activeTrackRef h = None \<Longrightarrow> finalizeActiveTrack ov h = h"
  by (simp add: finalizeActiveTrack_def)

lemma finalize_clears: "activeTrackRef (finalizeActiveTrack ov h) = None"
  by (cases "activeTrackRef h") (simp_all add: finalizeActiveTrack_def Let_def)

lemma finalize_some:
  assumes "activeTrackRef h = Some a"
  shows "finalizeActiveTrack ov h =
     (let latest = (case ov of Some v \<Rightarrow> v | None \<Rightarrow> latestProgressMs a);
          played = min (activeDurationMs a) (max (startProgressMs a) latest) - startProgressMs a;
          h1 = h\<lparr>activeTrackRef := None, lastFinalizedTrackIdRef := Some (activeTrackId a)\<rparr>
      in if 0 < played
         then h1\<lparr>counterState := (counterState h)
                 \<lparr>songsCompleted := songsCompleted (counterState h) + 1,
                  totalElapsedMs := totalElapsedMs (counterState h) + played,
                  lastSong := Some \<lparr>songTrackId = activeTrackId a,
                                     songTrackName = activeTrackName a,
                                     songArtistNames = activeArtistNames a,
                                     songDurationMs = played\<rparr>\<rparr>\<rparr>
         else h1)"
  using assms by (auto simp: finalizeActiveTrack_def Let_def max_def)

lemma finalize_counts:
  "counts_kept h (finalizeActiveTrack ov h) \<or> counts_bumped h (finalizeActiveTrack ov h)"
proof (cases "activeTrackRef h")
  case None
  then show ?thesis by (simp add: finalize_none counts_kept_def)
next
  case (Some a)
  show ?thesis
    by (simp add: finalize_some[OF Some] Let_def counts_kept_def counts_bumped_def)
qed

lemma start_ok:
  assumes "isPlaying t" and "hasAccessToken tokens"
  shows "start tokens (Some t) now h =
     h\<lparr>counterState := \<lparr>counterStatus = CounterRunning, songsCompleted = 0,
                           totalElapsedMs = 0, lastSong = None, counterError = None\<rparr>,
        activeTrackRef := Some \<lparr>activeTrackId = trackId t, activeTrackName = trackName t,
                                 activeArtistNames = artistNames t,
                                 activeDurationMs = trackDurationMs t,
                                 startProgressMs = getLiveProgress t now,
                                 latestProgressMs = getLiveProgress t now\<rparr>,
        lastFinalizedTrackIdRef := None\<rparr>"
  using assms by (simp add: start_def beginTracking_def Let_def)

lemma start_stop_zero:
  assumes "isPlaying t" and "hasAccessToken tokens"
  shows "counterState (stop (start tokens (Some t) now h)) =
           \<lparr>counterStatus = CounterIdle, songsCompleted = 0, totalElapsedMs = 0, lastSong = None,
            counterError = None\<rparr>"
    and "activeTrackRef (stop (start tokens (Some t) now h)) = None"
  using getLiveProgress_le_duration[of t now]
  by (simp_all add: start_ok[OF assms] stop_def finalizeActiveTrack_def Let_def)

lemma start_snapshot_stop_zero:
  assumes "isPlaying t" and "hasAccessToken tokens"
  shows "counterState (stop (processSnapshot (Some t) now (start tokens (Some t) now h))) =
           \<lparr>counterStatus = CounterIdle, songsCompleted = 0, totalElapsedMs = 0, lastSong = None,
            counterError = None\<rparr>"
  using getLiveProgress_le_duration[of t now]
  by (simp add: start_ok[OF assms] processSnapshot_def stop_def finalizeActiveTrack_def Let_def)

text \<open>
  Claim C2. Finalizing an active accumulator takes the latest progress (or the override),
  clamps it between \<open>startProgressMs\<close> and \<open>durationMs\<close> and subtracts \<open>startProgressMs\<close>.
  When this played time is positive, a completed song with that duration is recorded and
  the totals grow by one song and by the played time; otherwise the state is kept. The
  accumulator is cleared in both cases, and nothing happens when there is none. Starting
  the counter and stopping it at the same instant, with or without a processing of the same
  snapshot in between, leaves no record and totals of zero.
\<close>

theorem finalizeActiveTrack_playedMs:
  "(activeTrackRef h = Some a \<longrightarrow>
      (let latest = (case ov of Some v \<Rightarrow> v | None \<Rightarrow> latestProgressMs a);
           playedMs = min (activeDurationMs a) (max (startProgressMs a) latest) - startProgressMs a;
           h' = finalizeActiveTrack ov h
       in activeTrackRef h' = None \<and>
          (if 0 < playedMs
           then counterState h' = (counterState h)
                  \<lparr>songsCompleted := songsCompleted (counterState h) + 1,
                   totalElapsedMs := totalElapsedMs (counterState h) + playedMs,
                   lastSong := Some \<lparr>songTrackId = activeTrackId a,
                                      songTrackName = activeTrackName a,
                                      songArtistNames = activeArtistNames a,
                                      songDurationMs = playedMs\<rparr>\<rparr>
           else counterState h' = counterState h))) \<and>
   (activeTrackRef h = None \<longrightarrow> finalizeActiveTrack ov h = h) \<and>
   (isPlaying t \<and> hasAccessToken tokens \<longrightarrow>
      (let h2 = stop (start tokens (Some t) now h)
       in songsCompleted (counterState h2) = 0 \<and> totalElapsedMs (counterState h2) = 0 \<and>
          lastSong (counterState h2) = None \<and> counterStatus (counterState h2) = CounterIdle \<and>
          activeTrackRef h2 = None) \<and>
      (let h3 = stop (processSnapshot (Some t) now (start tokens (Some t) now h))
       in songsCompleted (counterState h3) = 0 \<and> totalElapsedMs (counterState h3) = 0 \<and>
          lastSong (counterState h3) = None))"
proof (intro conjI impI)
  assume a: "activeTrackRef h = Some a"
  show "let latest = (case ov of Some v \<Rightarrow> v | None \<Rightarrow> latestProgressMs a);
           playedMs = min (activeDurationMs a) (max (startProgressMs a) latest) - startProgressMs a;
           h' = finalizeActiveTrack ov h
       in activeTrackRef h' = None \<and>
          (if 0 < playedMs
           then counterState h' = (counterState h)
                  \<lparr>songsCompleted := songsCompleted (counterState h) + 1,
                   totalElapsedMs := totalElapsedMs (counterState h) + playedMs,
                   lastSong := Some \<lparr>songTrackId = activeTrackId a,
                                      songTrackName = activeTrackName a,
                                      songArtistNames = activeArtistNames a,
                                      songDurationMs = playedMs\<rparr>\<rparr>
           else counterState h' = counterState h)"
    by (simp add: finalize_some[OF a] Let_def)
next
  assume "activeTrackRef h = None"
  then show "finalizeActiveTrack ov h = h" by (rule finalize_none)
next
  assume b: "isPlaying t \<and> hasAccessToken tokens"
  then show "let h2 = stop (start tokens (Some t) now h)
       in songsCompleted (counterState h2) = 0 \<and> totalElapsedMs (counterState h2) = 0 \<and>
          lastSong (counterState h2) = None \<and> counterStatus (counterState h2) = CounterIdle \<and>
          activeTrackRef h2 = None"
    by (simp add: start_stop_zero Let_def)
  from b show "let h3 = stop (processSnapshot (Some t) now (start tokens (Some t) now h))
       in songsCompleted (counterState h3) = 0 \<and> totalElapsedMs (counterState h3) = 0 \<and>
          lastSong (counterState h3) = None"
    by (simp add: start_snapshot_stop_zero Let_def)
qed

theorem finalizeActiveTrack_playedMs_witness:
  "activeTrackRef exampleCounter = Some exampleActive \<and>
   isPlaying exampleTrack \<and> hasAccessToken (Some exampleTokens) \<and>
   activeTrackRef (finalizeActiveTrack None exampleCounter) = None \<and>
   songsCompleted (counterState (finalizeActiveTrack None exampleCounter)) = 3 \<and>
   totalElapsedMs (counterState (finalizeActiveTrack None exampleCounter)) = 490000 \<and>
   songsCompleted (counterState (stop (start (Some exampleTokens) (Some exampleTrack) 1000
       exampleCounter))) = 0 \<and>
   totalElapsedMs (counterState (stop (start (Some exampleTokens) (Some exampleTrack) 1000
       exampleCounter))) = 0 \<and>
   lastSong (counterState (stop (start (Some exampleTokens) (Some exampleTrack) 1000
       exampleCounter))) = None"
proof -
  have a: "activeTrackRef exampleCounter = Some exampleActive"
    by (simp add: exampleCounter_def)
  have b: "isPlaying exampleTrack \<and> hasAccessToken (Some exampleTokens)"
    by (simp add: exampleTrack_def exampleTokens_def hasAccessToken_def)
  note inst = finalizeActiveTrack_playedMs[of exampleCounter exampleActive None exampleTrack
      "Some exampleTokens" 1000]
  have c: "activeTrackRef (finalizeActiveTrack None exampleCounter) = None \<and>
        songsCompleted (counterState (finalizeActiveTrack None exampleCounter)) = 3 \<and>
        totalElapsedMs (counterState (finalizeActiveTrack None exampleCounter)) = 490000"
    using inst a by (simp add: Let_def exampleActive_def exampleCounter_def)
  have d: "songsCompleted (counterState (stop (start (Some exampleTokens) (Some exampleTrack) 1000
       exampleCounter))) = 0 \<and>
     totalElapsedMs (counterState (stop (start (Some exampleTokens) (Some exampleTrack) 1000
       exampleCounter))) = 0 \<and>
     lastSong (counterState (stop (start (Some exampleTokens) (Some exampleTrack) 1000
       exampleCounter))) = None"
    using inst b by (simp add: Let_def)
  from a b c d show ?thesis by blast
qed

lemma clearError_counts: "counts_kept h (clearError h)"
  by (simp add: clearError_def counts_kept_def)

lemma skipSettle_counts: "counts_kept h (skipSettle outcome h)"
  by (cases outcome) (simp_all add: skipSettle_def counts_kept_def)

lemma counts_kept_trans_bumped:
  "counts_kept h h1 \<or> counts_bumped h h1 \<Longrightarrow>
   songsCompleted (counterState h2) = songsCompleted (counterState h1) \<Longrightarrow>
   totalElapsedMs (counterState h2) = totalElapsedMs (counterState h1) \<Longrightarrow>
   lastSong (counterState h2) = lastSong (counterState h1) \<Longrightarrow>
   counts_kept h h2 \<or> counts_bumped h h2"
  by (auto simp: counts_kept_def counts_bumped_def)

lemma stop_counts: "counts_kept h (stop h) \<or> counts_bumped h (stop h)"
proof (cases "counterStatus (counterState h) = CounterIdle")
  case True
  then show ?thesis by (simp add: stop_def counts_kept_def)
next
  case False
  show ?thesis
    by (rule counts_kept_trans_bumped[OF finalize_counts[of h None]])
       (simp_all add: stop_def False Let_def)
qed

lemma skipIssue_counts:
  "counts_kept h (fst (skipIssue tokens tr now h)) \<or>
   counts_bumped h (fst (skipIssue tokens tr now h))"
proof (cases "counterStatus (counterState h) = CounterRunning")
  case False
  then show ?thesis by (simp add: skipIssue_def counts_kept_def)
next
  case True
  define ov where "ov = (case tr of Some current \<Rightarrow> Some (getLiveProgress current now) | None \<Rightarrow> None)"
  have h1: "(case tr of Some current \<Rightarrow> finalizeActiveTrack (Some (getLiveProgress current now)) h
                   | None \<Rightarrow> finalizeActiveTrack None h) = finalizeActiveTrack ov h"
    by (cases tr) (simp_all add: ov_def)
  show ?thesis
    by (rule counts_kept_trans_bumped[OF finalize_counts[of h ov]])
       (simp_all add: skipIssue_def True Let_def h1 clearError_def)
qed

lemma skip_counts:
  "counts_kept h (skip tokens tr now outcome h) \<or> counts_bumped h (skip tokens tr now outcome h)"
proof -
  obtain h1 issued where si: "skipIssue tokens tr now h = (h1, issued)"
    by (cases "skipIssue tokens tr now h")
  have c1: "counts_kept h h1 \<or> counts_bumped h h1"
    using skipIssue_counts[of h tokens tr now] by (simp add: si)
  show ?thesis
  proof (cases issued)
    case False
    then show ?thesis using c1 by (simp add: skip_def si)
  next
    case True
    have "counts_kept h (skipSettle outcome h1) \<or> counts_bumped h (skipSettle outcome h1)"
      by (rule counts_kept_trans_bumped[OF c1]) (cases outcome; simp add: skipSettle_def)+
    then show ?thesis by (simp add: skip_def si True)
  qed
qed

lemma processSnapshot_counts:
  "counts_kept h (processSnapshot tr now h) \<or> counts_bumped h (processSnapshot tr now h)"
proof (cases "counterStatus (counterState h) = CounterRunning")
  case False
  then show ?thesis by (simp add: processSnapshot_def counts_kept_def)
next
  case running: True
  show ?thesis
  proof (cases tr)
    case None
    show ?thesis
      by (rule counts_kept_trans_bumped[OF finalize_counts[of h None]])
         (simp_all add: processSnapshot_def running None)
  next
    case (Some t)
    show ?thesis
    proof (cases "activeTrackRef h")
      case noact: None
      then show ?thesis
        by (simp add: processSnapshot_def running Some beginTracking_def Let_def counts_kept_def)
    next
      case act: (Some active)
      show ?thesis
      proof (cases "activeTrackId active = trackId t")
        case True
        then show ?thesis
          by (simp add: processSnapshot_def running Some act counts_kept_def)
      next
        case False
        show ?thesis
          by (rule counts_kept_trans_bumped[OF finalize_counts[of h None]])
             (simp_all add: processSnapshot_def running Some act False beginTracking_def Let_def)
      qed
    qed
  qed
qed

lemma counterStep_counts:
  "\<not> isStart ev \<Longrightarrow> counts_kept h (counterStep ev h) \<or> counts_bumped h (counterStep ev h)"
proof (cases ev)
  case (Start x1 x2 x3)
  assume "\<not> isStart ev"
  with Start show ?thesis by simp
next
  case Stop
  then show ?thesis using stop_counts by simp
next
  case (SkipIssue x1 x2 x3)
  then show ?thesis using skipIssue_counts by simp
next
  case (SkipSettle x)
  then show ?thesis using skipSettle_counts by simp
next
  case (Snapshot x1 x2)
  then show ?thesis using processSnapshot_counts by simp
next
  case ClearError
  then show ?thesis using clearError_counts by simp
qed

lemma counts_step_le:
  "counts_kept h h' \<or> counts_bumped h h' \<Longrightarrow>
   songsCompleted (counterState h) \<le> songsCompleted (counterState h') \<and>
   totalElapsedMs (counterState h) \<le> totalElapsedMs (counterState h')"
  by (auto simp: counts_kept_def counts_bumped_def)

lemma runEvents_monotone:
  "\<forall>ev \<in> set evs. \<not> isStart ev \<Longrightarrow>
   songsCompleted (counterState h) \<le> songsCompleted (counterState (runEvents evs h)) \<and>
   totalElapsedMs (counterState h) \<le> totalElapsedMs (counterState (runEvents evs h))"
proof (induction evs arbitrary: h)
  case Nil
  then show ?case by simp
next
  case (Cons ev evs)
  have step: "songsCompleted (counterState h) \<le> songsCompleted (counterState (counterStep ev h)) \<and>
      totalElapsedMs (counterState h) \<le> totalElapsedMs (counterState (counterStep ev h))"
    using Cons.prems by (intro counts_step_le counterStep_counts) simp
  have rest: "songsCompleted (counterState (counterStep ev h))
        \<le> songsCompleted (counterState (runEvents evs (counterStep ev h))) \<and>
      totalElapsedMs (counterState (counterStep ev h))
        \<le> totalElapsedMs (counterState (runEvents evs (counterStep ev h)))"
    using Cons.prems by (intro Cons.IH) simp
  from step rest show ?case by simp
qed

lemma start_counts:
  "(isPlaying t \<and> hasAccessToken tokens \<longrightarrow>
      songsCompleted (counterState (start tokens (Some t) now h)) = 0 \<and>
      totalElapsedMs (counterState (start tokens (Some t) now h)) = 0)"
  "\<not> (isPlaying t \<and> hasAccessToken tokens) \<Longrightarrow> counts_kept h (start tokens (Some t) now h)"
  "counts_kept h (start tokens None now h)"
  by (auto simp: start_def beginTracking_def Let_def counts_kept_def)

text \<open>
  Claim C10. Every step other than \<open>start\<close> (processing a snapshot, both halves of
  \<open>skip\<close> and \<open>skip\<close> as a whole, \<open>stop\<close>, clearing the error, a finalization) keeps
  \<open>songsCompleted\<close> and \<open>totalElapsedMs\<close>, or adds one song and the positive played time
  of the song it records. Hence neither total decreases along a run without \<open>start\<close>. A
  successful \<open>start\<close> sets both to zero; a refused one keeps them.
\<close>

theorem counter_totals_monotone:
  "(\<not> isStart ev \<longrightarrow>
      counts_kept h (counterStep ev h) \<or> counts_bumped h (counterStep ev h)) \<and>
   (counts_kept h (skip tokens tr now outcome h) \<or>
      counts_bumped h (skip tokens tr now outcome h)) \<and>
   (counts_kept h (finalizeActiveTrack ov h) \<or> counts_bumped h (finalizeActiveTrack ov h)) \<and>
   ((\<forall>e \<in> set evs. \<not> isStart e) \<longrightarrow>
      songsCompleted (counterState h) \<le> songsCompleted (counterState (runEvents evs h)) \<and>
      totalElapsedMs (counterState h) \<le> totalElapsedMs (counterState (runEvents evs h))) \<and>
   (isPlaying t \<and> hasAccessToken tokens \<longrightarrow>
      songsCompleted (counterState (start tokens (Some t) now h)) = 0 \<and>
      totalElapsedMs (counterState (start tokens (Some t) now h)) = 0) \<and>
   (\<not> (isPlaying t \<and> hasAccessToken tokens) \<longrightarrow> counts_kept h (start tokens (Some t) now h)) \<and>
   counts_kept h (start tokens None now h)"
  using counterStep_counts[of ev h] skip_counts[of h tokens tr now outcome]
    finalize_counts[of h ov] runEvents_monotone[of evs h]
    start_counts(1)[of t tokens now h] start_counts(2)[of t tokens h now]
    start_counts(3)[of h tokens now]
  by blast

lemma example_step:
  "counterState (counterStep (Snapshot (Some nextTrack) 2000) exampleCounter) =
     \<lparr>counterStatus = CounterRunning, songsCompleted = 3, totalElapsedMs = 490000,
      lastSong = Some \<lparr>songTrackId = ''t1'', songTrackName = ''Song'',
                         songArtistNames = ''Artist'', songDurationMs = 190000\<rparr>,
      counterError = None\<rparr>"
  by (simp add: processSnapshot_def exampleCounter_def exampleActive_def nextTrack_def
      finalizeActiveTrack_def beginTracking_def Let_def)

theorem counter_totals_monotone_witness:
  "\<not> isStart (Snapshot (Some nextTrack) 2000) \<and>
   isPlaying exampleTrack \<and> hasAccessToken (Some exampleTokens) \<and>
   songsCompleted (counterState (counterStep (Snapshot (Some nextTrack) 2000) exampleCounter)) =
     songsCompleted (counterState exampleCounter) + 1 \<and>
   totalElapsedMs (counterState (counterStep (Snapshot (Some nextTrack) 2000) exampleCounter)) =
     totalElapsedMs (counterState exampleCounter) + 190000 \<and>
   songsCompleted (counterState (start (Some exampleTokens) (Some exampleTrack) 1000
     exampleCounter)) = 0 \<and>
   totalElapsedMs (counterState (start (Some exampleTokens) (Some exampleTrack) 1000
     exampleCounter)) = 0 \<and>
   songsCompleted (counterState exampleCounter)
     \<le> songsCompleted (counterState (runEvents [Snapshot (Some nextTrack) 2000, Stop]
           exampleCounter))"
proof -
  note inst = counter_totals_monotone[of "Snapshot (Some nextTrack) 2000" exampleCounter
      "Some exampleTokens" "Some exampleTrack" 1000 SkipRejected None
      "[Snapshot (Some nextTrack) 2000, Stop]" exampleTrack]
  have a: "\<not> isStart (Snapshot (Some nextTrack) 2000)" by simp
  have b: "isPlaying exampleTrack \<and> hasAccessToken (Some exampleTokens)"
    by (simp add: exampleTrack_def exampleTokens_def hasAccessToken_def)
  have c: "\<forall>e \<in> set [Snapshot (Some nextTrack) 2000, Stop]. \<not> isStart e" by simp
  have ex: "songsCompleted (counterState exampleCounter) = 2"
    "totalElapsedMs (counterState exampleCounter) = 300000"
    by (simp_all add: exampleCounter_def)
  have e: "songsCompleted (counterState (counterStep (Snapshot (Some nextTrack) 2000) exampleCounter)) =
     songsCompleted (counterState exampleCounter) + 1 \<and>
   totalElapsedMs (counterState (counterStep (Snapshot (Some nextTrack) 2000) exampleCounter)) =
     totalElapsedMs (counterState exampleCounter) + 190000"
    by (simp only: example_step ex) simp
  from inst a b c e show ?thesis by blast
qed

lemma skipIssue_running:
  assumes "counterStatus (counterState h) = CounterRunning" and "hasAccessToken tokens"
  shows "skipIssue tokens (Some t) now h =
     (clearError ((finalizeActiveTrack (Some (getLiveProgress t now)) h)\<lparr>isBusy := True\<rparr>), True)"
  using assms by (simp add: skipIssue_def Let_def)

lemma clearError_fields:
  "songsCompleted (counterState (clearError h)) = songsCompleted (counterState h)"
  "totalElapsedMs (counterState (clearError h)) = totalElapsedMs (counterState h)"
  "lastSong (counterState (clearError h)) = lastSong (counterState h)"
  "activeTrackRef (clearError h) = activeTrackRef h"
  by (simp_all add: clearError_def)

lemma skipSettle_rejected:
  "counterError (counterState (skipSettle SkipRejected g)) = Some ''Could not skip track. Check your Spotify app and try again.''"
  "songsCompleted (counterState (skipSettle SkipRejected g)) = songsCompleted (counterState g)"
  "totalElapsedMs (counterState (skipSettle SkipRejected g)) = totalElapsedMs (counterState g)"
  "lastSong (counterState (skipSettle SkipRejected g)) = lastSong (counterState g)"
  "isBusy (skipSettle SkipRejected g) = False"
  by (simp_all add: skipSettle_def)

text \<open>
  A response of any status settles the request without an error: \<open>skip\<close> reads neither
  the status nor the body.
\<close>

lemma skipSettle_responded: "skipSettle (SkipResponded st) g = g\<lparr>isBusy := False\<rparr>"
  by (simp add: skipSettle_def)

text \<open>
  While the counter is running and a token is present, \<open>skip\<close> sends the command
  (\<open>skipIssue\<close> returns \<open>True\<close>) in a state in which the accumulator is cleared and the
  totals and the last song are those of the finalization at the current live progress.
  When the request is rejected, the error string is set and \<open>songsCompleted\<close>,
  \<open>totalElapsedMs\<close> and the last song stay as finalized; the same holds for a rejection
  that arrives in any state \<open>g\<close>.
\<close>

theorem skip_finalizes_before_command_and_keeps_record:
  assumes "counterStatus (counterState h) = CounterRunning" and "hasAccessToken tokens"
  shows "(let fin = finalizeActiveTrack (Some (getLiveProgress t now)) h;
              h1 = fst (skipIssue tokens (Some t) now h);
              h2 = skipSettle SkipRejected h1
          in snd (skipIssue tokens (Some t) now h) \<and>
             activeTrackRef h1 = None \<and>
             songsCompleted (counterState h1) = songsCompleted (counterState fin) \<and>
             totalElapsedMs (counterState h1) = totalElapsedMs (counterState fin) \<and>
             lastSong (counterState h1) = lastSong (counterState fin) \<and>
             skip tokens (Some t) now SkipRejected h = h2 \<and>
             counterError (counterState h2) = Some ''Could not skip track. Check your Spotify app and try again.'' \<and>
             songsCompleted (counterState h2) = songsCompleted (counterState fin) \<and>
             totalElapsedMs (counterState h2) = totalElapsedMs (counterState fin) \<and>
             lastSong (counterState h2) = lastSong (counterState fin)) \<and>
         counterError (counterState (skipSettle SkipRejected g)) = Some ''Could not skip track. Check your Spotify app and try again.'' \<and>
         songsCompleted (counterState (skipSettle SkipRejected g)) = songsCompleted (counterState g) \<and>
         totalElapsedMs (counterState (skipSettle SkipRejected g)) = totalElapsedMs (counterState g) \<and>
         lastSong (counterState (skipSettle SkipRejected g)) = lastSong (counterState g)"
  by (simp add: Let_def skipIssue_running[OF assms] skip_def clearError_fields
      skipSettle_rejected finalize_clears)

theorem skip_finalizes_before_command_and_keeps_record_witness:
  "counterStatus (counterState exampleCounter) = CounterRunning \<and>
   hasAccessToken (Some exampleTokens) \<and>
   snd (skipIssue (Some exampleTokens) (Some exampleTrack) 61000 exampleCounter) \<and>
   activeTrackRef (fst (skipIssue (Some exampleTokens) (Some exampleTrack) 61000 exampleCounter))
     = None \<and>
   counterState (skip (Some exampleTokens) (Some exampleTrack) 61000 SkipRejected exampleCounter) =
     \<lparr>counterStatus = CounterRunning, songsCompleted = 3, totalElapsedMs = 360000,
      lastSong = Some \<lparr>songTrackId = ''t1'', songTrackName = ''Song'',
                         songArtistNames = ''Artist'', songDurationMs = 60000\<rparr>,
      counterError = Some ''Could not skip track. Check your Spotify app and try again.''\<rparr>"
proof -
  have a: "counterStatus (counterState exampleCounter) = CounterRunning"
    by (simp add: exampleCounter_def)
  have b: "hasAccessToken (Some exampleTokens)"
    by (simp add: exampleTokens_def hasAccessToken_def)
  have live: "getLiveProgress exampleTrack 61000 = 70000"
    by (simp add: getLiveProgress_def exampleTrack_def Let_def)
  have fin: "counterState (finalizeActiveTrack (Some 70000) exampleCounter) =
     \<lparr>counterStatus = CounterRunning, songsCompleted = 3, totalElapsedMs = 360000,
      lastSong = Some \<lparr>songTrackId = ''t1'', songTrackName = ''Song'',
                         songArtistNames = ''Artist'', songDurationMs = 60000\<rparr>,
      counterError = None\<rparr>"
    by (simp add: finalizeActiveTrack_def exampleCounter_def exampleActive_def Let_def)
  note inst = skip_finalizes_before_command_and_keeps_record[OF a b, of exampleTrack 61000
      exampleCounter]
  have st: "counterStatus (counterState (skip (Some exampleTokens) (Some exampleTrack) 61000
      SkipRejected exampleCounter)) = CounterRunning"
    by (simp add: skip_def skipIssue_running[OF a b] skipSettle_def clearError_def live fin)
  have "counterState (skip (Some exampleTokens) (Some exampleTrack) 61000 SkipRejected
      exampleCounter) =
     \<lparr>counterStatus = CounterRunning, songsCompleted = 3, totalElapsedMs = 360000,
      lastSong = Some \<lparr>songTrackId = ''t1'', songTrackName = ''Song'',
                         songArtistNames = ''Artist'', songDurationMs = 60000\<rparr>,
      counterError = Some ''Could not skip track. Check your Spotify app and try again.''\<rparr>"
    using inst st by (simp add: Let_def live fin SongCounterState.equality)
  with inst a b show ?thesis by (simp add: Let_def)
qed

lemma clearError_no_error: "counterError (counterState (clearError h)) = None"
  by (simp add: clearError_def)

text \<open>
  Claim C6 says that an error string is set when the skip command fails. \<open>skip\<close> reads
  neither the status nor the body of the response, so a command that the service answers
  with an error status (404 when no device is active, 401, 403, a status of the 500s)
  settles like one that succeeded: the error is the \<open>None\<close> that \<open>clearError\<close> left and the
  busy flag is reset. The totals and the last song are those of the finalization at the
  live progress, as the rest of the claim says.
\<close>

theorem skip_sets_no_error_on_error_response:
  assumes "counterStatus (counterState h) = CounterRunning" and "hasAccessToken tokens"
  shows "(let fin = finalizeActiveTrack (Some (getLiveProgress t now)) h;
              h2 = skip tokens (Some t) now (SkipResponded st) h
          in snd (skipIssue tokens (Some t) now h) \<and>
             counterError (counterState h2) = None \<and>
             isBusy h2 = False \<and>
             songsCompleted (counterState h2) = songsCompleted (counterState fin) \<and>
             totalElapsedMs (counterState h2) = totalElapsedMs (counterState fin) \<and>
             lastSong (counterState h2) = lastSong (counterState fin))"
  by (simp add: Let_def skipIssue_running[OF assms] skip_def skipSettle_responded
      clearError_fields clearError_no_error)

theorem skip_sets_no_error_on_error_response_witness:
  "counterStatus (counterState exampleCounter) = CounterRunning \<and>
   hasAccessToken (Some exampleTokens) \<and>
   \<not> responseOk 404 \<and>
   snd (skipIssue (Some exampleTokens) (Some exampleTrack) 61000 exampleCounter) \<and>
   counterError (counterState (skip (Some exampleTokens) (Some exampleTrack) 61000
     (SkipResponded 404) exampleCounter)) = None \<and>
   songsCompleted (counterState (skip (Some exampleTokens) (Some exampleTrack) 61000
     (SkipResponded 404) exampleCounter)) = 3 \<and>
   totalElapsedMs (counterState (skip (Some exampleTokens) (Some exampleTrack) 61000
     (SkipResponded 404) exampleCounter)) = 360000"
proof -
  have a: "counterStatus (counterState exampleCounter) = CounterRunning"
    by (simp add: exampleCounter_def)
  have b: "hasAccessToken (Some exampleTokens)"
    by (simp add: exampleTokens_def hasAccessToken_def)
  have c: "\<not> responseOk 404" by (simp add: responseOk_def)
  have live: "getLiveProgress exampleTrack 61000 = 70000"
    by (simp add: getLiveProgress_def exampleTrack_def Let_def)
  have fin: "songsCompleted (counterState (finalizeActiveTrack (Some 70000) exampleCounter)) = 3"
    "totalElapsedMs (counterState (finalizeActiveTrack (Some 70000) exampleCounter)) = 360000"
    by (simp_all add: finalizeActiveTrack_def exampleCounter_def exampleActive_def Let_def)
  note inst = skip_sets_no_error_on_error_response[OF a b, of exampleTrack 61000 404]
  from inst a b c show ?thesis by (simp add: Let_def live fin)
qed


section \<open>The playback observer\<close>

lemma noTrackUpdate_fields: "track (noTrackUpdate prev) = None \<and> hookError (noTrackUpdate prev) = None"
  by (simp add: noTrackUpdate_def)

lemma trackUpdate_fields:
  "track (trackUpdate nt prev) = Some nt \<and> hookError (trackUpdate nt prev) = None"
  by (simp add: trackUpdate_def split: option.splits)

lemma fetch_no_content:
  "track (fetchCurrentTrack (FetchResponse 204 body) True now prev) = None \<and>
   hookError (fetchCurrentTrack (FetchResponse 204 body) True now prev) = None"
  by (simp add: fetchCurrentTrack_def Let_def noTrackUpdate_fields)

lemma fetch_missing_item:
  assumes "responseOk st"
    and "body = BodyNull \<or> (\<exists>payload. body = Body payload \<and> payloadItem payload = None)"
  shows "track (fetchCurrentTrack (FetchResponse st body) True now prev) = None \<and>
         hookError (fetchCurrentTrack (FetchResponse st body) True now prev) = None"
  using assms by (auto simp: fetchCurrentTrack_def Let_def noTrackUpdate_fields)

lemma fetch_item:
  assumes "responseOk st" and "st \<noteq> 204" and "payloadItem payload = Some item"
  shows "fetchCurrentTrack (FetchResponse st (Body payload)) True now prev =
           trackUpdate (buildTrack payload item now)
             (if initialized prev then prev else prev\<lparr>isLoading := True\<rparr>)"
  using assms by (simp add: fetchCurrentTrack_def Let_def)

text \<open>
  Claim C7, amended. A response with status 204, a body that is \<open>null\<close> and a payload
  without item yield no track and no error. A successful response with an item yields the
  snapshot built from it: the artist names are \<open>Unknown artist\<close> when the item has no artist
  list and the names joined by a comma and a space otherwise; the album name is
  \<open>Unknown album\<close> when the album or its name is missing.
\<close>

theorem fetchCurrentTrack_normalizes:
  "track (fetchCurrentTrack (FetchResponse 204 body) True now prev) = None \<and>
   hookError (fetchCurrentTrack (FetchResponse 204 body) True now prev) = None \<and>
   (responseOk st \<longrightarrow>
      track (fetchCurrentTrack (FetchResponse st BodyNull) True now prev) = None \<and>
      hookError (fetchCurrentTrack (FetchResponse st BodyNull) True now prev) = None) \<and>
   (responseOk st \<and> payloadItem payload = None \<longrightarrow>
      track (fetchCurrentTrack (FetchResponse st (Body payload)) True now prev) = None \<and>
      hookError (fetchCurrentTrack (FetchResponse st (Body payload)) True now prev) = None) \<and>
   (responseOk st \<and> st \<noteq> 204 \<and> payloadItem payload = Some item \<longrightarrow>
      (\<exists>snapshot.
         track (fetchCurrentTrack (FetchResponse st (Body payload)) True now prev) = Some snapshot \<and>
         hookError (fetchCurrentTrack (FetchResponse st (Body payload)) True now prev) = None \<and>
         snapshot = buildTrack payload item now \<and>
         (itemArtists item = None \<longrightarrow> artistNames snapshot = ''Unknown artist'') \<and>
         (\<forall>names. itemArtists item = Some names \<longrightarrow> artistNames snapshot = join '', '' names) \<and>
         (itemAlbum item = None \<longrightarrow> albumName snapshot = ''Unknown album'') \<and>
         (\<forall>album. itemAlbum item = Some album \<and> albumNameField album = None \<longrightarrow>
            albumName snapshot = ''Unknown album'') \<and>
         (\<forall>album n. itemAlbum item = Some album \<and> albumNameField album = Some n \<longrightarrow>
            albumName snapshot = n)))"
proof (intro conjI impI)
  show "track (fetchCurrentTrack (FetchResponse 204 body) True now prev) = None"
    "hookError (fetchCurrentTrack (FetchResponse 204 body) True now prev) = None"
    using fetch_no_content by simp_all
next
  assume "responseOk st"
  then show "track (fetchCurrentTrack (FetchResponse st BodyNull) True now prev) = None"
    "hookError (fetchCurrentTrack (FetchResponse st BodyNull) True now prev) = None"
    using fetch_missing_item[of st BodyNull] by simp_all
next
  assume "responseOk st \<and> payloadItem payload = None"
  then show "track (fetchCurrentTrack (FetchResponse st (Body payload)) True now prev) = None"
    "hookError (fetchCurrentTrack (FetchResponse st (Body payload)) True now prev) = None"
    using fetch_missing_item[of st "Body payload"] by simp_all
next
  assume a: "responseOk st \<and> st \<noteq> 204 \<and> payloadItem payload = Some item"
  then have eq: "fetchCurrentTrack (FetchResponse st (Body payload)) True now prev =
           trackUpdate (buildTrack payload item now)
             (if initialized prev then prev else prev\<lparr>isLoading := True\<rparr>)"
    using fetch_item by simp
  show "\<exists>snapshot.
         track (fetchCurrentTrack (FetchResponse st (Body payload)) True now prev) = Some snapshot \<and>
         hookError (fetchCurrentTrack (FetchResponse st (Body payload)) True now prev) = None \<and>
         snapshot = buildTrack payload item now \<and>
         (itemArtists item = None \<longrightarrow> artistNames snapshot = ''Unknown artist'') \<and>
         (\<forall>names. itemArtists item = Some names \<longrightarrow> artistNames snapshot = join '', '' names) \<and>
         (itemAlbum item = None \<longrightarrow> albumName snapshot = ''Unknown album'') \<and>
         (\<forall>album. itemAlbum item = Some album \<and> albumNameField album = None \<longrightarrow>
            albumName snapshot = ''Unknown album'') \<and>
         (\<forall>album n. itemAlbum item = Some album \<and> albumNameField album = Some n \<longrightarrow>
            albumName snapshot = n)"
    unfolding eq by (auto simp: trackUpdate_fields buildTrack_def)
qed

text \<open>
  As stated, the claim fails for an artist list of length 0: the snapshot's artist names are
  the empty string, not the sentinel.
\<close>

theorem fetchCurrentTrack_empty_artists_counterexample:
  "responseOk 200 \<and>
   payloadItem noArtistsPayload = Some (exampleItem\<lparr>itemArtists := Some []\<rparr>) \<and>
   length (the (itemArtists (exampleItem\<lparr>itemArtists := Some []\<rparr>))) = 0 \<and>
   hookError (fetchCurrentTrack (FetchResponse 200 (Body noArtistsPayload)) True 1000
     INITIAL_HOOK_STATE) = None \<and>
   map_option artistNames (track (fetchCurrentTrack (FetchResponse 200 (Body noArtistsPayload))
     True 1000 INITIAL_HOOK_STATE)) = Some [] \<and>
   map_option artistNames (track (fetchCurrentTrack (FetchResponse 200 (Body noArtistsPayload))
     True 1000 INITIAL_HOOK_STATE)) \<noteq> Some ''Unknown artist''"
  by (simp add: fetchCurrentTrack_def Let_def responseOk_def noArtistsPayload_def
      exampleItem_def INITIAL_HOOK_STATE_def trackUpdate_def buildTrack_def)

theorem fetchCurrentTrack_normalizes_witness:
  "responseOk 200 \<and> payloadItem examplePayload = Some exampleItem \<and>
   itemArtists exampleItem = None \<and>
   map_option artistNames (track (fetchCurrentTrack (FetchResponse 200 (Body examplePayload))
     True 1000 INITIAL_HOOK_STATE)) = Some ''Unknown artist'' \<and>
   map_option albumName (track (fetchCurrentTrack (FetchResponse 200 (Body examplePayload))
     True 1000 INITIAL_HOOK_STATE)) = Some ''Unknown album'' \<and>
   track (fetchCurrentTrack (FetchResponse 204 BodyNull) True 1000 INITIAL_HOOK_STATE) = None"
proof -
  have a: "responseOk 200 \<and> (200::nat) \<noteq> 204 \<and> payloadItem examplePayload = Some exampleItem"
    by (simp add: responseOk_def examplePayload_def)
  have b: "itemArtists exampleItem = None"
    "itemAlbum exampleItem = Some \<lparr>albumNameField = None, albumImages = []\<rparr>"
    by (simp_all add: exampleItem_def)
  note inst = fetchCurrentTrack_normalizes[of BodyNull 1000 INITIAL_HOOK_STATE 200
      examplePayload exampleItem]
  from inst a have "\<exists>snapshot.
      track (fetchCurrentTrack (FetchResponse 200 (Body examplePayload)) True 1000
          INITIAL_HOOK_STATE) = Some snapshot \<and>
      (itemArtists exampleItem = None \<longrightarrow> artistNames snapshot = ''Unknown artist'') \<and>
      (\<forall>album. itemAlbum exampleItem = Some album \<and> albumNameField album = None \<longrightarrow>
            albumName snapshot = ''Unknown album'')"
    by simp
  then obtain snapshot where
    s: "track (fetchCurrentTrack (FetchResponse 200 (Body examplePayload)) True 1000
          INITIAL_HOOK_STATE) = Some snapshot"
      "itemArtists exampleItem = None \<longrightarrow> artistNames snapshot = ''Unknown artist''"
      "\<forall>album. itemAlbum exampleItem = Some album \<and> albumNameField album = None \<longrightarrow>
            albumName snapshot = ''Unknown album''"
    by auto
  have c: "artistNames snapshot = ''Unknown artist''" using s(2) b(1) by simp
  have d: "albumName snapshot = ''Unknown album''" using s(3) b(2) by simp
  from inst a b(1) s(1) c d show ?thesis by simp
qed


section \<open>The interval session driver\<close>

lemma computeTimeline_planA: "computeTimeline examplePlanA = Some statsA"
  by code_simp

lemma computeTimeline_planB: "computeTimeline examplePlanB = Some statsB"
  by code_simp

lemma runningA_value:
  "runningA =
     \<lparr>sessionState = \<lparr>status = Running, startedAt = Some 0, currentSliceIndex = 0\<rparr>,
      nowState = 0, timersRef = [2, 3], tickRef = Some 1,
      pendingTimeouts =
        [\<lparr>timerId = 2, delayMs = 120000, sliceIndex = 0, timerSkipAfter = True,
          timelineLength = 2\<rparr>,
         \<lparr>timerId = 3, delayMs = 240000, sliceIndex = 1, timerSkipAfter = False,
          timelineLength = 2\<rparr>],
      activeIntervals = [1], nextTimerId = 4, effectDeps = Some (2, 240000)\<rparr>"
  by (simp add: runningA_def startSession_def renderEffects_def initialDriver_def statsA_def
      exampleTokens_def hasAccessToken_def stopSession_def clearTimers_def clearTicker_def
      idleState_def Let_def)

text \<open>
  Claim C4 says that the pending slice actions are cancelled whenever the timeline changes
  or the session is stopped. The effect that stops the session on a change of plan depends
  on the length of the timeline and on the total duration only: after a render whose
  statistics agree with the last run in these two numbers, the effects return the driver
  as it is, its pending timeouts included, also when the timeline itself is another one.
\<close>

theorem renderEffects_keeps_timers_when_length_and_total_agree:
  assumes "hasAccessToken tokens"
    and "effectDeps d = Some (int (length (timeline stats')), totalDurationMs stats')"
  shows "renderEffects tokens stats' d = d"
  using assms by (simp add: renderEffects_def Let_def)

text \<open>
  A session is started with a plan of 4 minutes in slices of 120 seconds, and the slice
  length is then set to 150 seconds. Both timelines have two slices and last 240000 ms, so
  the timeouts of the first plan stay pending; the first of them fires at 120000 ms and
  sends a skip command, while the boundary of the plan in force is at 150000 ms.
\<close>

theorem renderEffects_keeps_timers_when_length_and_total_agree_witness:
  "computeTimeline examplePlanA = Some statsA \<and>
   computeTimeline examplePlanB = Some statsB \<and>
   timeline statsA \<noteq> timeline statsB \<and>
   hasAccessToken (Some exampleTokens) \<and>
   effectDeps runningA = Some (int (length (timeline statsB)), totalDurationMs statsB) \<and>
   renderEffects (Some exampleTokens) statsB runningA = runningA \<and>
   pendingTimeouts (renderEffects (Some exampleTokens) statsB runningA) =
     [\<lparr>timerId = 2, delayMs = 120000, sliceIndex = 0, timerSkipAfter = True, timelineLength = 2\<rparr>,
      \<lparr>timerId = 3, delayMs = 240000, sliceIndex = 1, timerSkipAfter = False, timelineLength = 2\<rparr>] \<and>
   snd (fireTimer \<lparr>timerId = 2, delayMs = 120000, sliceIndex = 0, timerSkipAfter = True,
                   timelineLength = 2\<rparr>
          (renderEffects (Some exampleTokens) statsB runningA)) \<and>
   map endMs (timeline statsB) = [150000, 240000]"
proof -
  have a: "hasAccessToken (Some exampleTokens)"
    by (simp add: exampleTokens_def hasAccessToken_def)
  have b: "effectDeps runningA = Some (int (length (timeline statsB)), totalDurationMs statsB)"
    by (simp add: runningA_value statsB_def)
  note inst = renderEffects_keeps_timers_when_length_and_total_agree[OF a b]
  have c: "timeline statsA \<noteq> timeline statsB" by (simp add: statsA_def statsB_def)
  have d: "pendingTimeouts runningA =
     [\<lparr>timerId = 2, delayMs = 120000, sliceIndex = 0, timerSkipAfter = True, timelineLength = 2\<rparr>,
      \<lparr>timerId = 3, delayMs = 240000, sliceIndex = 1, timerSkipAfter = False, timelineLength = 2\<rparr>]"
    by (simp add: runningA_value)
  have e: "snd (fireTimer \<lparr>timerId = 2, delayMs = 120000, sliceIndex = 0, timerSkipAfter = True,
                   timelineLength = 2\<rparr> runningA)"
    by (simp add: fireTimer_def Let_def)
  have f: "map endMs (timeline statsB) = [150000, 240000]" by (simp add: statsB_def)
  have g: "renderEffects (Some exampleTokens) statsB runningA = runningA" by (rule inst)
  have d': "pendingTimeouts (renderEffects (Some exampleTokens) statsB runningA) =
     [\<lparr>timerId = 2, delayMs = 120000, sliceIndex = 0, timerSkipAfter = True, timelineLength = 2\<rparr>,
      \<lparr>timerId = 3, delayMs = 240000, sliceIndex = 1, timerSkipAfter = False, timelineLength = 2\<rparr>]"
    unfolding g by (rule d)
  have e': "snd (fireTimer \<lparr>timerId = 2, delayMs = 120000, sliceIndex = 0, timerSkipAfter = True,
                   timelineLength = 2\<rparr>
          (renderEffects (Some exampleTokens) statsB runningA))"
    unfolding g by (rule e)
  show ?thesis
    by (intro conjI) (rule computeTimeline_planA computeTimeline_planB a b c g d' e' f)+
qed

lemma clearTicker_timers [simp]:
  "pendingTimeouts (clearTicker d) = pendingTimeouts d"
  "timersRef (clearTicker d) = timersRef d"
  by (simp_all add: clearTicker_def split: option.splits)

lemma clearTimers_pending: "timers_tracked d \<Longrightarrow> pendingTimeouts (clearTimers d) = []"
  by (auto simp: clearTimers_def timers_tracked_def filter_empty_conv)

lemma stopSession_pending: "timers_tracked d \<Longrightarrow> pendingTimeouts (stopSession d) = []"
  by (simp add: stopSession_def clearTimers_pending)

lemma stopSession_tracked: "timers_tracked d \<Longrightarrow> timers_tracked (stopSession d)"
  by (simp add: stopSession_pending timers_tracked_def)

lemma schedule_slices_tracked:
  "timers_tracked d \<Longrightarrow> timers_tracked (schedule_slices len idx slices d)"
proof (induction slices arbitrary: idx d)
  case Nil
  then show ?case by simp
next
  case (Cons slice rest)
  have "timers_tracked
      (d\<lparr>pendingTimeouts := pendingTimeouts d @
              [\<lparr>timerId = nextTimerId d, delayMs = endMs slice, sliceIndex = idx,
                timerSkipAfter = skipAfter slice, timelineLength = len\<rparr>],
          timersRef := timersRef d @ [nextTimerId d],
          nextTimerId := nextTimerId d + 1\<rparr>)"
    using Cons.prems by (auto simp: timers_tracked_def)
  then show ?case by (simp add: Cons.IH)
qed

lemma startSession_tracked: "timers_tracked d \<Longrightarrow> timers_tracked (startSession tokens stats now d)"
proof (cases "\<not> hasAccessToken tokens \<or> length (timeline stats) = 0")
  case True
  then show "timers_tracked d \<Longrightarrow> ?thesis" by (simp add: startSession_def)
next
  case False
  assume tr: "timers_tracked d"
  have "timers_tracked (clearTicker (clearTimers d))"
    using tr by (simp add: timers_tracked_def clearTimers_pending)
  then have "timers_tracked
      ((clearTicker (clearTimers d))
         \<lparr>sessionState := \<lparr>status = Running, startedAt = Some now, currentSliceIndex = 0\<rparr>,
          nowState := now,
          activeIntervals := activeIntervals (clearTicker (clearTimers d)) @
             [nextTimerId (clearTicker (clearTimers d))],
          tickRef := Some (nextTimerId (clearTicker (clearTimers d))),
          nextTimerId := nextTimerId (clearTicker (clearTimers d)) + 1\<rparr>)"
    by (simp add: timers_tracked_def)
  then show ?thesis
    using False by (simp add: startSession_def Let_def schedule_slices_tracked)
qed

lemma fireTimer_tracked: "timers_tracked d \<Longrightarrow> timers_tracked (fst (fireTimer t d))"
  by (auto simp: fireTimer_def Let_def timers_tracked_def)

lemma renderEffects_tracked: "timers_tracked d \<Longrightarrow> timers_tracked (renderEffects tokens stats d)"
  by (auto simp: renderEffects_def Let_def stopSession_pending timers_tracked_def
      dest: stopSession_tracked)

lemma reachable_tracked: "reachable d \<Longrightarrow> timers_tracked d"
proof (induction rule: reachable.induct)
  case (mount t0)
  then show ?case by (simp add: timers_tracked_def initialDriver_def)
next
  case (render d tokens stats)
  then show ?case by (simp add: renderEffects_tracked)
next
  case (started d tokens stats now)
  then show ?case by (simp add: startSession_tracked)
next
  case (stopped d)
  then show ?case by (simp add: stopSession_tracked)
next
  case (fired d t)
  then show ?case by (simp add: fireTimer_tracked)
next
  case (tick d n)
  then show ?case by (simp add: timers_tracked_def)
qed

text \<open>
  In a reachable driver \<open>stopSession\<close> leaves no pending timeout, and so do the effects of a
  render in which the length of the timeline or the total duration has changed.
\<close>

lemma stopSession_cancels_every_pending_action:
  "reachable d \<Longrightarrow> pendingTimeouts (stopSession d) = [] \<and> sessionState (stopSession d) = idleState"
  by (simp add: stopSession_pending reachable_tracked) (simp add: stopSession_def)

lemma renderEffects_cancels_when_length_or_total_changes:
  assumes "reachable d"
    and "effectDeps d \<noteq> Some (int (length (timeline stats)), totalDurationMs stats)"
  shows "pendingTimeouts (renderEffects tokens stats d) = []"
proof -
  have "timers_tracked d" using assms(1) by (rule reachable_tracked)
  then show ?thesis
    using assms(2)
    by (auto simp: renderEffects_def Let_def stopSession_pending dest: stopSession_tracked)
qed

lemma runningA_reachable: "reachable runningA"
  unfolding runningA_def by (intro reachable.intros)

subsection \<open>Starting without a token or with an empty timeline\<close>


lemma clearTicker_effectDeps [simp]: "effectDeps (clearTicker d) = effectDeps d"
  by (simp add: clearTicker_def split: option.splits)

lemma clearTicker_state [simp]: "sessionState (clearTicker d) = sessionState d"
  by (simp add: clearTicker_def split: option.splits)

lemma clearTicker_tickRef [simp]: "tickRef (clearTicker d) = None"
  by (simp add: clearTicker_def split: option.splits)

lemma stopSession_fields [simp]:
  "effectDeps (stopSession d) = effectDeps d"
  "sessionState (stopSession d) = idleState"
  "tickRef (stopSession d) = None"
  by (simp_all add: stopSession_def clearTimers_def)

lemma schedule_slices_effectDeps [simp]:
  "effectDeps (schedule_slices len idx slices d) = effectDeps d"
  by (induction slices arbitrary: idx d) simp_all

lemma startSession_effectDeps [simp]:
  "effectDeps (startSession tokens stats now d) = effectDeps d"
  by (simp add: startSession_def Let_def clearTimers_def)

lemma fireTimer_effectDeps [simp]: "effectDeps (fst (fireTimer t d)) = effectDeps d"
  by (simp add: fireTimer_def Let_def)

lemma renderEffects_effectDeps [simp]:
  "effectDeps (renderEffects tokens stats d) =
     Some (int (length (timeline stats)), totalDurationMs stats)"
  by (simp add: renderEffects_def Let_def)











lemma computeTimeline_zero:
  "computeTimeline \<lparr>totalMinutes = 0, includeThirtySeconds = False, sliceLengthSeconds = 120\<rparr> =
     Some emptyStats"
  by (simp add: computeTimeline_def totalMs_def emptyStats_def)

section \<open>The proactive refresh of the credential\<close>

lemma clearRefreshTimeout_pending:
  "set (pendingRefreshes (clearRefreshTimeout sch)) \<subseteq> set (pendingRefreshes sch)"
  by (auto simp: clearRefreshTimeout_def split: option.splits)

lemma clearRefreshTimeout_nextId: "nextRefreshId (clearRefreshTimeout sch) = nextRefreshId sch"
  by (simp add: clearRefreshTimeout_def split: option.splits)

lemma scheduleRefresh_new_delays:
  "p \<in> set (pendingRefreshes (fst (scheduleRefresh hasWindow current now sch))) \<Longrightarrow>
   p \<in> set (pendingRefreshes sch) \<or> 5000 \<le> snd p"
  using clearRefreshTimeout_pending[of sch]
  by (auto simp: scheduleRefresh_def Let_def MIN_REFRESH_DELAY_MS_def split: if_splits)

text \<open>
  Claim C9. For tokens with a refresh token, \<open>scheduleRefresh\<close> clears the pending timeout
  and then refreshes at once when at most 60000 ms of lifetime remain; otherwise it sets one
  timeout with the delay \<open>max (remaining - 60000) 5000\<close>. No timeout that
  \<open>scheduleRefresh\<close> adds has a delay below 5000 ms.
\<close>

theorem scheduleRefresh_buffer_and_minimum_delay:
  assumes "refreshToken current \<noteq> None" and "refreshToken current \<noteq> Some []"
  shows "(expiresAt current - now \<le> 60000 \<longrightarrow>
            scheduleRefresh True current now sch = (clearRefreshTimeout sch, True)) \<and>
         (60000 < expiresAt current - now \<longrightarrow>
            scheduleRefresh True current now sch =
              ((clearRefreshTimeout sch)
                 \<lparr>pendingRefreshes := pendingRefreshes (clearRefreshTimeout sch) @
                    [(nextRefreshId sch, max (expiresAt current - now - 60000) 5000)],
                  refreshTimeoutRef := Some (nextRefreshId sch),
                  nextRefreshId := nextRefreshId sch + 1\<rparr>, False) \<and>
            5000 \<le> max (expiresAt current - now - 60000) 5000) \<and>
         (\<forall>p \<in> set (pendingRefreshes (fst (scheduleRefresh hw current now sch))).
            p \<in> set (pendingRefreshes sch) \<or> 5000 \<le> snd p)"
  using assms scheduleRefresh_new_delays[of _ hw current now sch]
  by (auto simp: scheduleRefresh_def Let_def REFRESH_BUFFER_MS_def MIN_REFRESH_DELAY_MS_def
      clearRefreshTimeout_nextId)

theorem scheduleRefresh_buffer_and_minimum_delay_witness:
  "refreshToken exampleTokens \<noteq> None \<and> refreshToken exampleTokens \<noteq> Some [] \<and>
   snd (scheduleRefresh True exampleTokens 3550000 emptyScheduler) \<and>
   \<not> snd (scheduleRefresh True exampleTokens 3537000 emptyScheduler) \<and>
   pendingRefreshes (fst (scheduleRefresh True exampleTokens 3537000 emptyScheduler)) = [(1, 5000)] \<and>
   pendingRefreshes (fst (scheduleRefresh True exampleTokens 0 emptyScheduler)) = [(1, 3540000)]"
proof -
  have a: "refreshToken exampleTokens \<noteq> None" "refreshToken exampleTokens \<noteq> Some []"
    by (simp_all add: exampleTokens_def)
  have e: "expiresAt exampleTokens = 3600000" by (simp add: exampleTokens_def)
  note i1 = scheduleRefresh_buffer_and_minimum_delay[OF a, of 3550000 emptyScheduler True]
  have b: "snd (scheduleRefresh True exampleTokens 3550000 emptyScheduler)"
    using i1 by (simp add: e)
  have c: "\<not> snd (scheduleRefresh True exampleTokens 3537000 emptyScheduler) \<and>
     pendingRefreshes (fst (scheduleRefresh True exampleTokens 3537000 emptyScheduler)) = [(1, 5000)] \<and>
     pendingRefreshes (fst (scheduleRefresh True exampleTokens 0 emptyScheduler)) = [(1, 3540000)]"
    by (simp add: scheduleRefresh_def Let_def REFRESH_BUFFER_MS_def MIN_REFRESH_DELAY_MS_def
        exampleTokens_def emptyScheduler_def clearRefreshTimeout_def)
  from a b c show ?thesis by simp
qed

end
